theory Spec2Isabelle
  imports Main "HOL-Library.Word"
begin

section \<open>The download tool: data model\<close>

text \<open>
  Two programs are embedded: the plugin tool \<^verbatim>\<open>src/download-file.ts\<close> (its
  \<^verbatim>\<open>execute\<close>) and the command-line program \<^verbatim>\<open>src/unnamed/part_000\<close>
  (\<^verbatim>\<open>parseArgs\<close>, \<^verbatim>\<open>inferFilenameFromUrl\<close>, \<^verbatim>\<open>download\<close>, \<^verbatim>\<open>main\<close>).
  Everything the programs call but do not define (the URL class, \<^verbatim>\<open>fetch\<close>, the
  HTTP client, the file system) is the environment: a record of oracles that a
  theorem quantifies over.
\<close>

type_synonym bytes = "8 word list"

text \<open>
  A URL object as the programs observe it: \<^verbatim>\<open>toString()\<close> (the field \<open>href\<close>),
  \<^verbatim>\<open>protocol\<close> and \<^verbatim>\<open>pathname\<close>; \<open>host\<close>, \<open>search\<close> and \<open>hash\<close> are the
  remaining components of the URL class, which the programs never read.
\<close>

record url =
  href :: string
  protocol :: string
  host :: string
  pathname :: string
  search :: string
  hash :: string

text \<open>
  The errors the programs raise. The comments give the source's message.
  \<open>Uncaught e\<close> is an exception thrown inside the response callback of
  \<^verbatim>\<open>download\<close>, where no promise catches it.
\<close>

datatype error =
    Exit nat                \<comment> \<open>\<^verbatim>\<open>process.exit\<close> after the usage text\<close>
  | InvalidURL string       \<comment> \<open>\<^verbatim>\<open>Invalid URL: <arg>\<close>\<close>
  | TypeError               \<comment> \<open>thrown by \<^verbatim>\<open>new URL\<close>\<close>
  | ProtocolError           \<comment> \<open>thrown by the HTTP client: \<^verbatim>\<open>Protocol "<p>" not supported.\<close>\<close>
  | UnsupportedScheme       \<comment> \<open>\<^verbatim>\<open>Only http and https URLs are supported.\<close>\<close>
  | TooManyRedirects        \<comment> \<open>\<^verbatim>\<open>Too many redirects (>5).\<close>\<close>
  | DownloadFailed int      \<comment> \<open>\<^verbatim>\<open>Download failed with status <code>.\<close>\<close>
  | TransportError          \<comment> \<open>an error event of the request or the response, a rejected \<^verbatim>\<open>fetch\<close>\<close>
  | FilesystemError         \<comment> \<open>a failed \<^verbatim>\<open>mkdir\<close> or write\<close>
  | Uncaught error

text \<open>
  A response of the HTTP client (\<^verbatim>\<open>http.IncomingMessage\<close>): \<^verbatim>\<open>statusCode\<close> may be
  undefined, \<^verbatim>\<open>headers.location\<close> may be undefined; the body is the bytes the
  stream delivers, and \<open>body_error\<close> says that the stream ends in an error
  event after them.
\<close>

record http_response =
  statusCode :: "int option"
  location :: "string option"
  body :: bytes
  body_error :: bool

text \<open>
  What \<^verbatim>\<open>requestImpl(parsed, callback)\<close> comes to: the client throws before
  anything is sent (\<open>Refused\<close>; node does so exactly when the URL's protocol is
  neither \<^verbatim>\<open>http:\<close> nor \<^verbatim>\<open>https:\<close>), the request emits an error, or the callback
  receives a response.
\<close>

datatype net_outcome = Refused | RequestError | Response http_response

text \<open>
  A response of \<^verbatim>\<open>fetch\<close>, which follows redirects by itself: \<open>url_list\<close> is the
  list of URLs the platform visited (the Fetch standard's URL list of a response, whose
  last element is \<^verbatim>\<open>response.url\<close>), \<open>status\<close> the final status and
  \<open>arrayBuffer\<close> the outcome of reading the whole body.
\<close>

record fetch_response =
  url_list :: "string list"
  status :: int
  arrayBuffer :: "error + bytes"

text \<open>\<^verbatim>\<open>response.ok\<close>: the status is in the range 200 to 299.\<close>

definition ok :: "fetch_response \<Rightarrow> bool" where
  "ok r = (200 \<le> status r \<and> status r < 300)"

text \<open>
  How a write to a path ends: it completes, the file cannot be opened (and stays
  as it was), or it fails leaving the first \<open>n\<close> bytes in the file.
\<close>

datatype write_outcome = WriteOk | OpenFails | WriteFailsAfter nat

record env =
  new_URL :: "string \<Rightarrow> url option \<Rightarrow> url option"
    \<comment> \<open>\<^verbatim>\<open>new URL(input, base?)\<close>; \<open>None\<close> when it throws\<close>
  cwd :: string
    \<comment> \<open>\<^verbatim>\<open>process.cwd()\<close>\<close>
  respond :: "nat \<Rightarrow> url \<Rightarrow> net_outcome"
    \<comment> \<open>the outcome of the HTTP client's request number \<open>k\<close> (from 0), for a URL\<close>
  fetch :: "url \<Rightarrow> error + fetch_response"
    \<comment> \<open>the outcome of \<^verbatim>\<open>fetch(url)\<close>\<close>
  mkdir_fails :: "string \<Rightarrow> bool"
    \<comment> \<open>whether the recursive \<^verbatim>\<open>mkdir\<close> of a directory throws\<close>
  write_outcome :: "string \<Rightarrow> write_outcome"

text \<open>
  The effects: the requests sent (by the HTTP client or by \<^verbatim>\<open>fetch\<close>), the
  directories passed to a successful recursive \<^verbatim>\<open>mkdir\<close>, and the files' contents.
\<close>

record world =
  requests :: "url list"
  mkdirs :: "string list"
  files :: "string \<rightharpoonup> bytes"

section \<open>\<^verbatim>\<open>node:path\<close> (POSIX)\<close>

text \<open>\<^verbatim>\<open>s.split("/")\<close> of JavaScript: the empty string gives one empty segment.\<close>

fun split_slash :: "string \<Rightarrow> string list" where
  "split_slash [] = [[]]"
| "split_slash (c # cs) =
     (if c = CHR ''/'' then [] # split_slash cs
      else (case split_slash cs of
              [] \<Rightarrow> [[c]]
            | s # ss \<Rightarrow> (c # s) # ss))"

fun join_slash :: "string list \<Rightarrow> string" where
  "join_slash [] = []"
| "join_slash [s] = s"
| "join_slash (s # t # ss) = s @ CHR ''/'' # join_slash (t # ss)"

definition isAbsolute :: "string \<Rightarrow> bool" where
  "isAbsolute p = (case p of [] \<Rightarrow> False | c # _ \<Rightarrow> c = CHR ''/'')"

text \<open>
  \<^verbatim>\<open>normalizeString\<close>, segment by segment: empty and \<^verbatim>\<open>.\<close> segments are dropped,
  \<^verbatim>\<open>..\<close> removes the segment before it, and is kept only above the start of a
  relative path.
\<close>

fun normalizeSegments :: "bool \<Rightarrow> string list \<Rightarrow> string list \<Rightarrow> string list" where
  "normalizeSegments allowAboveRoot res [] = res"
| "normalizeSegments allowAboveRoot res (s # ss) =
     (if s = [] \<or> s = ''.'' then normalizeSegments allowAboveRoot res ss
      else if s = ''..'' then
        (if res \<noteq> [] \<and> last res \<noteq> ''..'' then normalizeSegments allowAboveRoot (butlast res) ss
         else if allowAboveRoot then normalizeSegments allowAboveRoot (res @ [''..'']) ss
         else normalizeSegments allowAboveRoot res ss)
      else normalizeSegments allowAboveRoot (res @ [s]) ss)"

text \<open>
  The loop of \<^verbatim>\<open>path.resolve\<close>, from the last argument to the first and then the
  working directory: empty arguments are skipped, and it stops at the first
  absolute one.
\<close>

fun resolve_loop :: "string list \<Rightarrow> string \<Rightarrow> string \<times> bool" where
  "resolve_loop [] resolvedPath = (resolvedPath, False)"
| "resolve_loop (p # ps) resolvedPath =
     (if p = [] then resolve_loop ps resolvedPath
      else if isAbsolute p then (p @ CHR ''/'' # resolvedPath, True)
      else resolve_loop ps (p @ CHR ''/'' # resolvedPath))"

definition resolve :: "string \<Rightarrow> string list \<Rightarrow> string" where
  "resolve wd args =
     (case resolve_loop (rev args @ [wd]) [] of
        (resolvedPath, resolvedAbsolute) \<Rightarrow>
          (let segs = normalizeSegments (\<not> resolvedAbsolute) [] (split_slash resolvedPath)
           in if resolvedAbsolute then CHR ''/'' # join_slash segs
              else if segs = [] then ''.'' else join_slash segs))"

text \<open>
  \<^verbatim>\<open>path.dirname\<close>: scanning from the end down to index 1, skip the trailing
  slashes, then the last segment; \<open>end\<close> is the index of the slash before it.
\<close>

definition dirname :: "string \<Rightarrow> string" where
  "dirname p =
     (case p of
        [] \<Rightarrow> ''.''
      | c # cs \<Rightarrow>
          (let hasRoot = (c = CHR ''/'');
               rest = dropWhile (\<lambda>x. x \<noteq> CHR ''/'') (dropWhile (\<lambda>x. x = CHR ''/'') (rev cs));
               end = length rest
           in if rest = [] then (if hasRoot then ''/'' else ''.'')
              else if hasRoot \<and> end = 1 then ''//''
              else take end p))"

section \<open>Filename inference and the output path\<close>

text \<open>\<^verbatim>\<open>xs.pop()\<close>: the last element, undefined on the empty array.\<close>

definition pop :: "'a list \<Rightarrow> 'a option" where
  "pop xs = (if xs = [] then None else Some (last xs))"

text \<open>
  \<^verbatim>\<open>inferFilenameFromUrl\<close>, the same in both files:
  \<^verbatim>\<open>url.pathname.split("/").filter(Boolean).pop() || "downloaded-file"\<close>.
\<close>

definition inferFilenameFromUrl :: "url \<Rightarrow> string" where
  "inferFilenameFromUrl u =
     (let lastSegment = pop (filter (\<lambda>s. s \<noteq> []) (split_slash (pathname u)))
      in case lastSegment of
           None \<Rightarrow> ''downloaded-file''
         | Some s \<Rightarrow> if s = [] then ''downloaded-file'' else s)"

text \<open>
  The \<^verbatim>\<open>outputPath\<close> of \<^verbatim>\<open>execute\<close> (lines 30 to 34 of the plugin): an
  undefined or empty \<^verbatim>\<open>args.outputPath\<close> is falsy.
\<close>

definition resolveOutputPath :: "env \<Rightarrow> string option \<Rightarrow> string \<Rightarrow> url \<Rightarrow> string" where
  "resolveOutputPath E argOutputPath directory parsedUrl =
     (case argOutputPath of
        None \<Rightarrow> resolve (cwd E) [directory, inferFilenameFromUrl parsedUrl]
      | Some p \<Rightarrow>
          if p = [] then resolve (cwd E) [directory, inferFilenameFromUrl parsedUrl]
          else if isAbsolute p then p
          else resolve (cwd E) [directory, p])"

section \<open>The plugin tool: \<^verbatim>\<open>execute\<close>\<close>

record tool_args =
  arg_url :: string
  arg_outputPath :: "string option"

text \<open>The object \<^verbatim>\<open>execute\<close> returns.\<close>

record transfer_result =
  url :: string
  outputPath :: string
  bytesWritten :: nat

text \<open>\<^verbatim>\<open>await mkdir(dir, { recursive: true })\<close> and \<^verbatim>\<open>mkdirSync\<close>.\<close>

definition mkdir :: "env \<Rightarrow> world \<Rightarrow> string \<Rightarrow> error + world" where
  "mkdir E w dir =
     (if mkdir_fails E dir then Inl FilesystemError
      else Inr (w\<lparr>mkdirs := mkdirs w @ [dir]\<rparr>))"

text \<open>
  Writing \<open>data\<close> to a path, replacing what the file held: \<^verbatim>\<open>Bun.write\<close> in the
  plugin, the write stream fed by \<^verbatim>\<open>pipe\<close> in the command-line program.
\<close>

definition write_file :: "env \<Rightarrow> world \<Rightarrow> string \<Rightarrow> bytes \<Rightarrow> (error + unit) \<times> world" where
  "write_file E w path data =
     (case write_outcome E path of
        WriteOk \<Rightarrow> (Inr (), w\<lparr>files := (files w)(path \<mapsto> data)\<rparr>)
      | OpenFails \<Rightarrow> (Inl FilesystemError, w)
      | WriteFailsAfter n \<Rightarrow> (Inl FilesystemError, w\<lparr>files := (files w)(path \<mapsto> take n data)\<rparr>))"

definition execute :: "env \<Rightarrow> world \<Rightarrow> tool_args \<Rightarrow> string \<Rightarrow> (error + transfer_result) \<times> world" where
  "execute E w args directory =
     (case new_URL E (arg_url args) None of
        None \<Rightarrow> (Inl TypeError, w)
      | Some parsedUrl \<Rightarrow>
          if protocol parsedUrl \<notin> {''http:'', ''https:''} then (Inl UnsupportedScheme, w)
          else
            (let out = resolveOutputPath E (arg_outputPath args) directory parsedUrl;
                 w1 = w\<lparr>requests := requests w @ [parsedUrl]\<rparr>
             in (case fetch E parsedUrl of
                   Inl e \<Rightarrow> (Inl e, w1)
                 | Inr response \<Rightarrow>
                     if \<not> ok response then (Inl (DownloadFailed (status response)), w1)
                     else
                       (case arrayBuffer response of
                          Inl e \<Rightarrow> (Inl e, w1)
                        | Inr buf \<Rightarrow>
                            (case mkdir E w1 (dirname out) of
                               Inl e \<Rightarrow> (Inl e, w1)
                             | Inr w2 \<Rightarrow>
                                 (case write_file E w2 out buf of
                                    (Inl e, w3) \<Rightarrow> (Inl e, w3)
                                  | (Inr _, w3) \<Rightarrow>
                                      (Inr \<lparr>url = href parsedUrl,
                                            outputPath = out,
                                            bytesWritten = length buf\<rparr>, w3)))))))"

section \<open>The command-line program\<close>

definition MAX_REDIRECTS :: nat where
  "MAX_REDIRECTS = 5"

record CliArgs =
  cli_url :: string
  cli_output :: string

text \<open>
  \<^verbatim>\<open>parseArgs\<close>: \<open>argv\<close> is the argument list; a missing argument is undefined,
  and an undefined or empty one is falsy.
\<close>

definition parseArgs :: "env \<Rightarrow> string list \<Rightarrow> error + CliArgs" where
  "parseArgs E argv =
     (let urlArg = (case argv of [] \<Rightarrow> None | a # _ \<Rightarrow> Some a);
          outputArg = (case argv of _ # b # _ \<Rightarrow> Some b | _ \<Rightarrow> None)
      in case urlArg of
           None \<Rightarrow> Inl (Exit 1)
         | Some u \<Rightarrow>
             if u = [] then Inl (Exit 1)
             else if u = ''--help'' \<or> u = ''-h'' then Inl (Exit 0)
             else
               (case new_URL E u None of
                  None \<Rightarrow> Inl (InvalidURL u)
                | Some parsedUrl \<Rightarrow>
                    if protocol parsedUrl \<notin> {''http:'', ''https:''} then Inl UnsupportedScheme
                    else
                      (let output = (case outputArg of
                                       None \<Rightarrow> resolve (cwd E) [cwd E, inferFilenameFromUrl parsedUrl]
                                     | Some p \<Rightarrow>
                                         if p = [] then resolve (cwd E) [cwd E, inferFilenameFromUrl parsedUrl]
                                         else resolve (cwd E) [p])
                       in Inr \<lparr>cli_url = href parsedUrl, cli_output = output\<rparr>)))"

text \<open>
  Lines 77 to 92 of \<^verbatim>\<open>download\<close>: \<^verbatim>\<open>mkdirSync\<close> throws inside the response
  callback; the write stream receives the bytes the response delivers; an error
  of the stream or of the response rejects the promise and leaves the file as
  it is by then.
\<close>

definition pipe_to_file :: "env \<Rightarrow> world \<Rightarrow> string \<Rightarrow> http_response \<Rightarrow> (error + unit) \<times> world" where
  "pipe_to_file E w output response =
     (case mkdir E w (dirname output) of
        Inl e \<Rightarrow> (Inl (Uncaught e), w)
      | Inr w2 \<Rightarrow>
          (case write_file E w2 output (body response) of
             (Inl e, w3) \<Rightarrow> (Inl e, w3)
           | (Inr _, w3) \<Rightarrow>
               if body_error response then (Inl TransportError, w3) else (Inr (), w3)))"

text \<open>The local \<^verbatim>\<open>statusCode\<close> of \<^verbatim>\<open>download\<close>: \<^verbatim>\<open>response.statusCode ?? 0\<close>.\<close>

definition status_code :: "http_response \<Rightarrow> int" where
  "status_code response = (case statusCode response of None \<Rightarrow> 0 | Some c \<Rightarrow> c)"

text \<open>\<^verbatim>\<open>[301, 302, 303, 307, 308].includes(statusCode) && location\<close>.\<close>

definition is_redirect :: "int \<Rightarrow> string option \<Rightarrow> bool" where
  "is_redirect code loc =
     (code \<in> {301, 302, 303, 307, 308} \<and> (case loc of None \<Rightarrow> False | Some l \<Rightarrow> l \<noteq> []))"

text \<open>The value of a header that may be undefined.\<close>

definition header_value :: "string option \<Rightarrow> string" where
  "header_value h = (case h of None \<Rightarrow> [] | Some l \<Rightarrow> l)"

function download :: "env \<Rightarrow> world \<Rightarrow> string \<Rightarrow> string \<Rightarrow> nat \<Rightarrow> (error + unit) \<times> world" where
  "download E w u output redirects =
     (case new_URL E u None of
        None \<Rightarrow> (Inl TypeError, w)
      | Some parsed \<Rightarrow>
          (case respond E (length (requests w)) parsed of
             Refused \<Rightarrow> (Inl ProtocolError, w)
           | RequestError \<Rightarrow> (Inl TransportError, w\<lparr>requests := requests w @ [parsed]\<rparr>)
           | Response response \<Rightarrow>
               if is_redirect (status_code response) (location response)
               then
                 (if redirects \<ge> MAX_REDIRECTS
                  then (Inl TooManyRedirects, w\<lparr>requests := requests w @ [parsed]\<rparr>)
                  else
                    (case new_URL E (header_value (location response)) (Some parsed) of
                       None \<Rightarrow> (Inl (Uncaught TypeError), w\<lparr>requests := requests w @ [parsed]\<rparr>)
                     | Some next \<Rightarrow>
                         download E (w\<lparr>requests := requests w @ [parsed]\<rparr>) (href next) output
                           (redirects + 1)))
               else if status_code response < 200 \<or> status_code response \<ge> 300
               then (Inl (DownloadFailed (status_code response)),
                     w\<lparr>requests := requests w @ [parsed]\<rparr>)
               else pipe_to_file E (w\<lparr>requests := requests w @ [parsed]\<rparr>) output response))"
  by pat_completeness auto
termination
  by (relation "measure (\<lambda>(E, w, u, output, redirects). MAX_REDIRECTS - redirects)") auto

text \<open>
  \<^verbatim>\<open>main\<close>: the arguments are parsed, then the download starts with no redirect
  followed. Every error ends the process with status 1 after one line on the
  error stream; the model returns the error.
\<close>

definition main :: "env \<Rightarrow> world \<Rightarrow> string list \<Rightarrow> (error + unit) \<times> world" where
  "main E w argv =
     (case parseArgs E argv of
        Inl e \<Rightarrow> (Inl e, w)
      | Inr a \<Rightarrow> download E w (cli_url a) (cli_output a) 0)"

section \<open>Redirect chains\<close>

text \<open>
  \<open>redirect_chain E k us\<close>: when the URLs of \<open>us\<close> are requested in order, starting
  with request number \<open>k\<close>, every one but the last is answered by a redirect that
  \<^verbatim>\<open>download\<close> follows to the next (a redirect status with a Location that
  resolves, against the URL requested, to the next URL). The length of the
  chain is the number of its redirects, \<open>length us - 1\<close>.
\<close>

fun redirect_chain :: "env \<Rightarrow> nat \<Rightarrow> string list \<Rightarrow> bool" where
  "redirect_chain E k [] = False"
| "redirect_chain E k [u] = True"
| "redirect_chain E k (u # v # us) =
     (case new_URL E u None of
        None \<Rightarrow> False
      | Some parsed \<Rightarrow>
          (case respond E k parsed of
             Refused \<Rightarrow> False
           | RequestError \<Rightarrow> False
           | Response response \<Rightarrow>
               is_redirect (status_code response) (location response)
               \<and> (case new_URL E (header_value (location response)) (Some parsed) of
                      None \<Rightarrow> False
                    | Some next \<Rightarrow> href next = v)
               \<and> redirect_chain E (Suc k) (v # us)))"

text \<open>The URL objects of a list of URL strings.\<close>

fun parsed_urls :: "env \<Rightarrow> string list \<Rightarrow> url list" where
  "parsed_urls E [] = []"
| "parsed_urls E (u # us) =
     (case new_URL E u None of
        None \<Rightarrow> parsed_urls E us
      | Some parsed \<Rightarrow> parsed # parsed_urls E us)"

section \<open>A URL parser for the scenarios\<close>

text \<open>
  The theorems below hold for every \<open>new_URL\<close>. The scenarios need a concrete
  one. \<open>whatwg_URL\<close> accepts

  \<^item> \<^verbatim>\<open>scheme://host[/path][?query][#fragment]\<close>, where the scheme is \<^verbatim>\<open>http\<close>,
    \<^verbatim>\<open>https\<close>, \<^verbatim>\<open>ftp\<close>, \<^verbatim>\<open>ws\<close> or \<^verbatim>\<open>wss\<close> in any case, the host is letters in
    labels separated by single dots (no port, no user), and path, query and
    fragment are made of letters, digits and \<^verbatim>\<open>-._~=&\<close>, the path also of
    slashes;
  \<^item> with a base that it produced itself, the references \<^verbatim>\<open>//host[/path]\<close>,
    \<^verbatim>\<open>/path\<close>, \<^verbatim>\<open>path\<close> and the empty one, each with an optional query and
    fragment, of the same characters.

  On these it does what the URL standard's parser does: scheme and host in
  lower case, dot segments removed, an empty path printed as a slash, a relative
  path merged with the base's. On every other input it answers \<open>None\<close>, also
  where the URL class would accept the input (a port, a percent sign, another
  scheme, ...).
\<close>

definition split_first :: "char \<Rightarrow> string \<Rightarrow> string \<times> string option" where
  "split_first d s =
     (takeWhile (\<lambda>c. c \<noteq> d) s,
      case dropWhile (\<lambda>c. c \<noteq> d) s of [] \<Rightarrow> None | _ # r \<Rightarrow> Some r)"

fun remove_dots :: "string list \<Rightarrow> string list \<Rightarrow> string list" where
  "remove_dots path [] = path"
| "remove_dots path (s # ss) =
     (if s = ''..'' then remove_dots (butlast path @ (if ss = [] then [[]] else [])) ss
      else if s = ''.'' then remove_dots (path @ (if ss = [] then [[]] else [])) ss
      else remove_dots (path @ [s]) ss)"

definition lower :: "char \<Rightarrow> char" where
  "lower c =
     (case map_of (zip ''ABCDEFGHIJKLMNOPQRSTUVWXYZ'' ''abcdefghijklmnopqrstuvwxyz'') c of
        None \<Rightarrow> c
      | Some l \<Rightarrow> l)"

definition is_scheme :: "string \<Rightarrow> bool" where
  "is_scheme s = (s \<in> {''http'', ''https'', ''ftp'', ''ws'', ''wss''})"

text \<open>Labels of lower-case letters separated by single dots; \<open>need\<close>: a letter must follow.\<close>

fun is_host_from :: "bool \<Rightarrow> string \<Rightarrow> bool" where
  "is_host_from need [] = (\<not> need)"
| "is_host_from need (c # cs) =
     (if c \<in> set ''abcdefghijklmnopqrstuvwxyz'' then is_host_from False cs
      else c = CHR ''.'' \<and> \<not> need \<and> is_host_from True cs)"

definition is_plain :: "string \<Rightarrow> bool" where
  "is_plain s =
     list_all (\<lambda>c. c \<in> set ''abcdefghijklmnopqrstuvwxyzABCDEFGHIJKLMNOPQRSTUVWXYZ0123456789-._~=&'') s"

definition is_path :: "string \<Rightarrow> bool" where
  "is_path s = is_plain (filter (\<lambda>c. c \<noteq> CHR ''/'') s)"

definition make_url :: "string \<Rightarrow> string \<Rightarrow> string list \<Rightarrow> string option \<Rightarrow> string option \<Rightarrow> url" where
  "make_url scheme h segs query fragment =
     (let p = CHR ''/'' # join_slash segs;
          q = (case query of None \<Rightarrow> [] | Some x \<Rightarrow> CHR ''?'' # x);
          f = (case fragment of None \<Rightarrow> [] | Some x \<Rightarrow> CHR ''#'' # x)
      in \<lparr>href = scheme @ ''://'' @ h @ p @ q @ f,
          protocol = scheme @ '':'',
          host = h,
          pathname = p,
          search = (if q = ''?'' then [] else q),
          hash = (if f = ''#'' then [] else f)\<rparr>)"

text \<open>What follows \<^verbatim>\<open>//\<close>: the host up to the first slash, then the path.\<close>

definition authority_path :: "string \<Rightarrow> string \<Rightarrow> string option \<Rightarrow> string option \<Rightarrow> url option" where
  "authority_path scheme rest query fragment =
     (let h = map lower (takeWhile (\<lambda>c. c \<noteq> CHR ''/'') rest);
          p = dropWhile (\<lambda>c. c \<noteq> CHR ''/'') rest
      in if is_host_from True h
         then Some (make_url scheme h (remove_dots [] (split_slash (drop 1 p))) query fragment)
         else None)"

definition whatwg_URL :: "string \<Rightarrow> url option \<Rightarrow> url option" where
  "whatwg_URL input base =
     (case split_first CHR ''#'' input of (r1, fragment) \<Rightarrow>
      case split_first CHR ''?'' r1 of (r2, query) \<Rightarrow>
      case split_first CHR '':'' r2 of (scheme, after) \<Rightarrow>
        if \<not> (is_plain (case query of None \<Rightarrow> [] | Some x \<Rightarrow> x)
              \<and> is_plain (case fragment of None \<Rightarrow> [] | Some x \<Rightarrow> x))
        then None
        else
          (case after of
             Some rest \<Rightarrow>
               if is_scheme (map lower scheme) \<and> take 2 rest = ''//'' \<and> is_path rest
               then authority_path (map lower scheme) (drop 2 rest) query fragment
               else None
           | None \<Rightarrow>
               (case base of
                  None \<Rightarrow> None
                | Some b \<Rightarrow>
                    (let bscheme = butlast (protocol b);
                         bsegs = split_slash (drop 1 (pathname b));
                         bquery = (if search b = [] then None else Some (drop 1 (search b)))
                     in if \<not> is_path r2 then None
                        else if r2 = [] then
                          Some (make_url bscheme (host b) bsegs
                                  (if query = None then bquery else query) fragment)
                        else if take 2 r2 = ''//'' then
                          authority_path bscheme (drop 2 r2) query fragment
                        else if take 1 r2 = ''/'' then
                          Some (make_url bscheme (host b) (remove_dots [] (split_slash (drop 1 r2)))
                                  query fragment)
                        else
                          Some (make_url bscheme (host b)
                                  (remove_dots (butlast bsegs) (split_slash r2)) query fragment)))))"

section \<open>Clean paths and the scenarios' data\<close>

text \<open>
  A path segment that \<^verbatim>\<open>path.resolve\<close> leaves alone, and the absolute path of a
  list of segments.
\<close>

definition clean_segment :: "string \<Rightarrow> bool" where
  "clean_segment s = (s \<noteq> [] \<and> CHR ''/'' \<notin> set s \<and> s \<noteq> ''.'' \<and> s \<noteq> ''..'')"

definition abs_path :: "string list \<Rightarrow> string" where
  "abs_path segs = concat (map (\<lambda>s. CHR ''/'' # s) segs)"

text \<open>
  The environment of the scenarios: the URL parser above, a network where every
  request fails, and a file system where every operation succeeds. A scenario
  replaces the network.
\<close>

definition scenario_env :: env where
  "scenario_env =
     \<lparr>new_URL = whatwg_URL,
      cwd = ''/home/user'',
      respond = (\<lambda>k u. RequestError),
      fetch = (\<lambda>u. Inl TransportError),
      mkdir_fails = (\<lambda>d. False),
      write_outcome = (\<lambda>p. WriteOk)\<rparr>"

definition empty_world :: world where
  "empty_world = \<lparr>requests = [], mkdirs = [], files = Map.empty\<rparr>"

text \<open>The URL object of \<^verbatim>\<open>https://host/path\<close>.\<close>

definition https_url :: "string \<Rightarrow> string \<Rightarrow> url" where
  "https_url h p =
     \<lparr>href = ''https://'' @ h @ p, protocol = ''https:'', host = h, pathname = p,
      search = [], hash = []\<rparr>"

text \<open>
  Servers: one that answers every request with the same status and Location
  and an empty body, and one that has moved \<^verbatim>\<open>/files/report.pdf\<close> to
  \<^verbatim>\<open>/v2/report.pdf\<close> and serves three bytes everywhere else.
\<close>

definition status_server :: "int \<Rightarrow> string option \<Rightarrow> nat \<Rightarrow> url \<Rightarrow> net_outcome" where
  "status_server c l k u =
     Response \<lparr>statusCode = Some c, location = l, body = [], body_error = False\<rparr>"

definition moved_server :: "nat \<Rightarrow> url \<Rightarrow> net_outcome" where
  "moved_server k u =
     (if pathname u = ''/files/report.pdf''
      then Response \<lparr>statusCode = Some 302, location = Some ''/v2/report.pdf'', body = [],
                     body_error = False\<rparr>
      else Response \<lparr>statusCode = Some 200, location = None, body = [80, 68, 70],
                     body_error = False\<rparr>)"

text \<open>
  What \<^verbatim>\<open>fetch\<close> returns: a response with a given status and body that was not
  redirected, and the response of the server that has moved the file, which
  \<^verbatim>\<open>fetch\<close> reached through one redirect.
\<close>

definition status_fetch :: "int \<Rightarrow> error + bytes \<Rightarrow> url \<Rightarrow> error + fetch_response" where
  "status_fetch c b u = Inr \<lparr>url_list = [href u], status = c, arrayBuffer = b\<rparr>"

definition moved_fetch :: "url \<Rightarrow> error + fetch_response" where
  "moved_fetch u =
     Inr \<lparr>url_list = [href u, ''https://example.com/v2/report.pdf''], status = 200,
          arrayBuffer = Inr [80, 68, 70]\<rparr>"

text \<open>
  The scenario with a given server and a given \<^verbatim>\<open>fetch\<close>; \<open>no_server\<close> and
  \<open>no_fetch\<close> stand for the one a scenario does not use.
\<close>

definition scenario :: "(nat \<Rightarrow> url \<Rightarrow> net_outcome) \<Rightarrow> (url \<Rightarrow> error + fetch_response) \<Rightarrow> env" where
  "scenario server fetched = scenario_env\<lparr>respond := server, fetch := fetched\<rparr>"

definition no_server :: "nat \<Rightarrow> url \<Rightarrow> net_outcome" where
  "no_server k u = RequestError"

definition no_fetch :: "url \<Rightarrow> error + fetch_response" where
  "no_fetch u = Inl TransportError"

text \<open>
  Node's HTTP client in front of a server: it refuses a URL whose protocol is
  neither \<^verbatim>\<open>http:\<close> nor \<^verbatim>\<open>https:\<close>.
\<close>

definition node_client :: "(nat \<Rightarrow> url \<Rightarrow> net_outcome) \<Rightarrow> nat \<Rightarrow> url \<Rightarrow> net_outcome" where
  "node_client server k u =
     (if protocol u \<in> {''http:'', ''https:''} then server k u else Refused)"

text \<open>An environment whose writes fail after \<open>n\<close> bytes.\<close>

definition failing_write :: "nat \<Rightarrow> env \<Rightarrow> env" where
  "failing_write n E = E\<lparr>write_outcome := (\<lambda>p. WriteFailsAfter n)\<rparr>"

text \<open>The URL object of \<^verbatim>\<open>ftp://example.com/report.pdf\<close>.\<close>

definition ftp_report :: url where
  "ftp_report =
     \<lparr>href = ''ftp://example.com/report.pdf'', protocol = ''ftp:'', host = ''example.com'',
      pathname = ''/report.pdf'', search = [], hash = []\<rparr>"

section \<open>Splitting a path\<close>

lemma split_slash_not_Nil: "split_slash s \<noteq> []"
  by (induction s) (auto split: list.splits)

lemma split_slash_no_slash: "CHR ''/'' \<notin> set s \<Longrightarrow> split_slash s = [s]"
  by (induction s) auto

lemma split_slash_append:
  "CHR ''/'' \<notin> set a \<Longrightarrow> split_slash (a @ CHR ''/'' # r) = a # split_slash r"
  by (induction a) auto

lemma split_slash_snoc_slash:
  "split_slash (p @ [CHR ''/'']) = split_slash p @ [[]]"
  by (induction p) (auto split: list.splits simp: split_slash_not_Nil)

lemma split_slash_prefix:
  "CHR ''/'' \<notin> set seg \<Longrightarrow> split_slash (p @ CHR ''/'' # seg) = split_slash p @ [seg]"
  by (induction p) (auto split: list.splits simp: split_slash_not_Nil split_slash_no_slash)

lemma segments_all_slashes:
  "set p \<subseteq> {CHR ''/''} \<Longrightarrow> filter (\<lambda>s. s \<noteq> []) (split_slash p) = []"
  by (induction p) auto

lemma segments_trailing_slashes:
  "filter (\<lambda>s. s \<noteq> []) (split_slash (p @ replicate n CHR ''/'')) = filter (\<lambda>s. s \<noteq> []) (split_slash p)"
proof (induction n)
  case 0
  then show ?case by simp
next
  case (Suc n)
  have "p @ replicate (Suc n) CHR ''/'' = (p @ replicate n CHR ''/'') @ [CHR ''/'']"
    by (simp add: replicate_append_same)
  then have "split_slash (p @ replicate (Suc n) CHR ''/'') = split_slash (p @ replicate n CHR ''/'') @ [[]]"
    by (simp only: split_slash_snoc_slash)
  then show ?case using Suc by simp
qed

lemma segments_last:
  assumes "seg \<noteq> []" "CHR ''/'' \<notin> set seg" "pre = [] \<or> last pre = CHR ''/''"
  shows "pop (filter (\<lambda>s. s \<noteq> []) (split_slash (pre @ seg @ replicate n CHR ''/''))) = Some seg"
proof -
  have "filter (\<lambda>s. s \<noteq> []) (split_slash (pre @ seg)) = filter (\<lambda>s. s \<noteq> []) (split_slash pre) @ [seg]"
  proof (cases "pre = []")
    case True
    then show ?thesis using assms by (simp add: split_slash_no_slash)
  next
    case False
    then obtain q where "pre = q @ [CHR ''/'']" using assms(3)
      by (metis append_butlast_last_id)
    then show ?thesis using assms by (simp add: split_slash_prefix split_slash_snoc_slash)
  qed
  then show ?thesis
    using segments_trailing_slashes [of "pre @ seg" n] by (simp add: pop_def)
qed

lemma inferFilenameFromUrl_fallback:
  "set (pathname u) \<subseteq> {CHR ''/''} \<Longrightarrow> inferFilenameFromUrl u = ''downloaded-file''"
  by (simp add: inferFilenameFromUrl_def segments_all_slashes pop_def)

lemma inferFilenameFromUrl_segment:
  "pathname u = pre @ seg @ replicate n CHR ''/'' \<Longrightarrow> seg \<noteq> [] \<Longrightarrow> CHR ''/'' \<notin> set seg
   \<Longrightarrow> pre = [] \<or> last pre = CHR ''/'' \<Longrightarrow> inferFilenameFromUrl u = seg"
  by (simp add: inferFilenameFromUrl_def segments_last)


lemma split_slash_abs_path:
  "list_all clean_segment segs \<Longrightarrow> CHR ''/'' \<notin> set s
   \<Longrightarrow> split_slash (s @ abs_path segs @ CHR ''/'' # r) = (s # segs) @ split_slash r"
proof (induction segs arbitrary: s)
  case Nil
  then show ?case by (simp add: abs_path_def split_slash_append)
next
  case (Cons t ts)
  have "s @ abs_path (t # ts) @ CHR ''/'' # r = s @ CHR ''/'' # (t @ abs_path ts @ CHR ''/'' # r)"
    by (simp add: abs_path_def)
  moreover have "split_slash (t @ abs_path ts @ CHR ''/'' # r) = (t # ts) @ split_slash r"
    using Cons by (simp add: clean_segment_def)
  ultimately show ?case using Cons.prems(2) by (simp add: split_slash_append)
qed

lemma normalizeSegments_clean:
  "list_all (\<lambda>s. s = [] \<or> clean_segment s) xs
   \<Longrightarrow> normalizeSegments b acc xs = acc @ filter (\<lambda>s. s \<noteq> []) xs"
  by (induction xs arbitrary: acc) (auto simp: clean_segment_def)

lemma join_slash_abs_path: "xs \<noteq> [] \<Longrightarrow> CHR ''/'' # join_slash xs = abs_path xs"
  by (induction xs rule: join_slash.induct) (auto simp: abs_path_def)

lemma abs_path_absolute: "segs \<noteq> [] \<Longrightarrow> abs_path segs \<noteq> [] \<and> isAbsolute (abs_path segs)"
  by (cases segs) (auto simp: abs_path_def isAbsolute_def)

lemma resolve_clean:
  assumes "list_all clean_segment segs" "segs \<noteq> []" "clean_segment name"
  shows "resolve wd [abs_path segs, name] = abs_path segs @ CHR ''/'' # name"
proof -
  have n: "name \<noteq> []" "\<not> isAbsolute name" "CHR ''/'' \<notin> set name"
    using assms(3) by (auto simp: clean_segment_def isAbsolute_def split: list.splits)
  have loop: "resolve_loop (rev [abs_path segs, name] @ [wd]) [] = (abs_path segs @ CHR ''/'' # name @ ''/'', True)"
    using n abs_path_absolute [OF assms(2)] by simp
  have "split_slash ([] @ abs_path segs @ CHR ''/'' # name @ ''/'') = ([] # segs) @ split_slash (name @ ''/'')"
    using assms(1) by (intro split_slash_abs_path) auto
  then have sp: "split_slash (abs_path segs @ CHR ''/'' # name @ ''/'') = [] # segs @ [name, []]"
    using n(3) by (simp add: split_slash_append)
  have "list_all (\<lambda>s. s = [] \<or> clean_segment s) ([] # segs @ [name, []])"
    using assms by (auto simp: list_all_iff)
  then have "normalizeSegments False [] ([] # segs @ [name, []]) = [] @ filter (\<lambda>s. s \<noteq> []) ([] # segs @ [name, []])"
    by (rule normalizeSegments_clean)
  also have "\<dots> = segs @ [name]"
    using assms n(1) by (auto simp: list_all_iff clean_segment_def filter_id_conv)
  finally have norm: "normalizeSegments False [] (split_slash (abs_path segs @ CHR ''/'' # name @ ''/'')) = segs @ [name]"
    by (simp only: sp)
  have "CHR ''/'' # join_slash (segs @ [name]) = abs_path (segs @ [name])"
    by (rule join_slash_abs_path) simp
  also have "\<dots> = abs_path segs @ CHR ''/'' # name"
    by (simp add: abs_path_def)
  finally have "CHR ''/'' # join_slash (segs @ [name]) = abs_path segs @ CHR ''/'' # name" .
  then show ?thesis
    unfolding resolve_def loop by (simp add: norm)
qed



text \<open>
  Every string is some slashes, or ends in a segment without a slash, after a
  slash or at the start, followed by some slashes.
\<close>

lemma trailing_slashes:
  "\<exists>q n. p = q @ replicate n CHR ''/'' \<and> (q = [] \<or> last q \<noteq> CHR ''/'')"
proof (induction p rule: rev_induct)
  case Nil
  then show ?case by simp
next
  case (snoc c p)
  show ?case
  proof (cases "c = CHR ''/''")
    case False
    then have "p @ [c] = (p @ [c]) @ replicate 0 CHR ''/'' \<and> last (p @ [c]) \<noteq> CHR ''/''" by simp
    then show ?thesis by blast
  next
    case True
    from snoc obtain q n where "p = q @ replicate n CHR ''/''" "q = [] \<or> last q \<noteq> CHR ''/''"
      by blast
    then have "p @ [c] = q @ replicate (Suc n) CHR ''/''" using True
      by (simp add: replicate_append_same)
    then show ?thesis using \<open>q = [] \<or> last q \<noteq> CHR ''/''\<close> by blast
  qed
qed

lemma last_segment_split:
  "\<exists>pre seg. q = pre @ seg \<and> CHR ''/'' \<notin> set seg \<and> (pre = [] \<or> last pre = CHR ''/'')"
proof (induction q rule: rev_induct)
  case Nil
  then show ?case by simp
next
  case (snoc c q)
  show ?case
  proof (cases "c = CHR ''/''")
    case True
    then have "q @ [c] = (q @ [c]) @ [] \<and> CHR ''/'' \<notin> set [] \<and> last (q @ [c]) = CHR ''/''" by simp
    then show ?thesis by blast
  next
    case False
    from snoc obtain pre seg where "q = pre @ seg" "CHR ''/'' \<notin> set seg" "pre = [] \<or> last pre = CHR ''/''"
      by blast
    then have "q @ [c] = pre @ (seg @ [c]) \<and> CHR ''/'' \<notin> set (seg @ [c])" using False by simp
    then show ?thesis using \<open>pre = [] \<or> last pre = CHR ''/''\<close> by blast
  qed
qed

lemma pathname_decomposition:
  "\<exists>pre seg n. p = pre @ seg @ replicate n CHR ''/'' \<and> CHR ''/'' \<notin> set seg
     \<and> (pre = [] \<or> last pre = CHR ''/'') \<and> (seg = [] \<longrightarrow> pre = [])"
proof -
  obtain q n where q: "p = q @ replicate n CHR ''/''" "q = [] \<or> last q \<noteq> CHR ''/''"
    using trailing_slashes by blast
  obtain pre seg where s: "q = pre @ seg" "CHR ''/'' \<notin> set seg" "pre = [] \<or> last pre = CHR ''/''"
    using last_segment_split by blast
  have "seg = [] \<longrightarrow> pre = []" using q(2) s(1,3) by auto
  then show ?thesis using q(1) s by auto
qed

section \<open>The scenarios' URLs\<close>

lemma parse_report_pdf:
  "whatwg_URL ''https://example.com/files/report.pdf'' None =
     Some \<lparr>href = ''https://example.com/files/report.pdf'', protocol = ''https:'',
           host = ''example.com'', pathname = ''/files/report.pdf'', search = [], hash = []\<rparr>"
  by (simp add: whatwg_URL_def split_first_def is_scheme_def make_url_def Let_def lower_def
      is_plain_def is_path_def authority_path_def)

lemma parse_report_pdf_query:
  "whatwg_URL ''https://example.com/files/report.pdf?v=1#top'' None =
     Some \<lparr>href = ''https://example.com/files/report.pdf?v=1#top'', protocol = ''https:'',
           host = ''example.com'', pathname = ''/files/report.pdf'', search = ''?v=1'', hash = ''#top''\<rparr>"
  by (simp add: whatwg_URL_def split_first_def is_scheme_def make_url_def Let_def lower_def
      is_plain_def is_path_def authority_path_def)

lemma resolveOutputPath_report_pdf:
  "resolveOutputPath scenario_env None ''/work/dir''
     \<lparr>href = h, protocol = p, host = a, pathname = ''/files/report.pdf'', search = q, hash = f\<rparr>
   = ''/work/dir/report.pdf''"
  by (simp add: resolveOutputPath_def inferFilenameFromUrl_def pop_def resolve_def isAbsolute_def
      scenario_env_def)

section \<open>Evaluating the scenarios\<close>

lemmas scenario_simps =
  whatwg_URL_def split_first_def is_scheme_def make_url_def Let_def lower_def
      is_plain_def is_path_def authority_path_def scenario_env_def
  scenario_def no_server_def no_fetch_def status_server_def moved_server_def status_fetch_def moved_fetch_def
  https_url_def empty_world_def is_redirect_def header_value_def status_code_def node_client_def

lemma parse_https:
  "whatwg_URL ''https://example.com/start'' None = Some (https_url ''example.com'' ''/start'')"
  "whatwg_URL ''https://example.com/loop'' None = Some (https_url ''example.com'' ''/loop'')"
  "whatwg_URL ''https://example.com/files/report.pdf'' None = Some (https_url ''example.com'' ''/files/report.pdf'')"
  "whatwg_URL ''https://example.com/v2/report.pdf'' None = Some (https_url ''example.com'' ''/v2/report.pdf'')"
  by (simp_all add: scenario_simps)

lemma https_url_sel:
  "href (https_url h p) = ''https://'' @ h @ p"
  "protocol (https_url h p) = ''https:''"
  "pathname (https_url h p) = p"
  by (simp_all add: https_url_def)

lemma unresolved_location:
  "whatwg_URL ''http://'' base = None"
  by (simp add: scenario_simps)

lemma parse_ftp:
  "whatwg_URL ''ftp://example.com/report.pdf'' base = Some ftp_report"
  "href ftp_report = ''ftp://example.com/report.pdf''"
  "protocol ftp_report = ''ftp:''"
  by (simp_all add: scenario_simps ftp_report_def)

lemma resolve_location:
  "whatwg_URL ''/loop'' (Some (https_url ''example.com'' p)) = Some (https_url ''example.com'' ''/loop'')"
  "whatwg_URL ''/v2/report.pdf'' (Some (https_url ''example.com'' p)) = Some (https_url ''example.com'' ''/v2/report.pdf'')"
  by (simp_all add: scenario_simps)

section \<open>Destination resolution\<close>

text \<open>
  C6: with no output path given, the destination is the base directory resolved
  with the last non-empty segment of the URL's pathname, and with
  \<^verbatim>\<open>downloaded-file\<close> when the pathname has none. Every pathname is either only
  slashes (\<open>pre\<close> and \<open>seg\<close> empty) or ends in a segment \<open>seg\<close> without a slash,
  after a slash or at the start, followed by \<open>n\<close> slashes. The resolution is
  \<^verbatim>\<open>path.resolve\<close>; for a base directory \<^verbatim>\<open>/s1/.../sk\<close> of clean segments it is
  the directory, a slash and the name.
\<close>

theorem resolveDestination_inferred:
  assumes "pathname u = pre @ seg @ replicate n CHR ''/''"
    and "CHR ''/'' \<notin> set seg"
    and "pre = [] \<or> last pre = CHR ''/''"
    and "seg = [] \<longrightarrow> pre = []"
  shows "resolveOutputPath E None dir u =
           resolve (cwd E) [dir, if seg = [] then ''downloaded-file'' else seg]
         \<and> (list_all clean_segment segs \<and> segs \<noteq> [] \<and> seg \<noteq> ''.'' \<and> seg \<noteq> ''..''
              \<longrightarrow> resolveOutputPath E None (abs_path segs) u =
                  abs_path segs @ CHR ''/'' # (if seg = [] then ''downloaded-file'' else seg))"
proof -
  have name: "inferFilenameFromUrl u = (if seg = [] then ''downloaded-file'' else seg)"
  proof (cases "seg = []")
    case True
    then have "set (pathname u) \<subseteq> {CHR ''/''}" using assms by auto
    then show ?thesis using True by (simp add: inferFilenameFromUrl_fallback)
  next
    case False
    then show ?thesis using assms inferFilenameFromUrl_segment [of u pre seg n] by simp
  qed
  have "clean_segment (if seg = [] then ''downloaded-file'' else seg)"
    if "seg \<noteq> ''.''" "seg \<noteq> ''..''"
    using that assms(2) by (simp add: clean_segment_def)
  then show ?thesis
    by (simp add: resolveOutputPath_def name resolve_clean del: resolve_loop.simps)
qed


theorem resolveDestination_inferred_witness:
  "resolveOutputPath scenario_env None ''/work/dir''
     \<lparr>href = ''https://example.com/files/report.pdf'', protocol = ''https:'',
      host = ''example.com'', pathname = ''/files/report.pdf'', search = [], hash = []\<rparr>
     = ''/work/dir/report.pdf''
   \<and> resolveOutputPath scenario_env None ''/work/dir''
     \<lparr>href = ''https://example.com/'', protocol = ''https:'',
      host = ''example.com'', pathname = ''/'', search = [], hash = []\<rparr>
     = ''/work/dir/downloaded-file''"
  using resolveDestination_inferred [of
      "\<lparr>href = ''https://example.com/files/report.pdf'', protocol = ''https:'',
        host = ''example.com'', pathname = ''/files/report.pdf'', search = [], hash = []\<rparr>"
      "''/files/''" "''report.pdf''" 0 scenario_env "''/work/dir''" "[''work'', ''dir'']"]
    resolveDestination_inferred [of
      "\<lparr>href = ''https://example.com/'', protocol = ''https:'',
        host = ''example.com'', pathname = ''/'', search = [], hash = []\<rparr>"
      "[]" "[]" 1 scenario_env "''/work/dir''" "[''work'', ''dir'']"]
  by (simp add: abs_path_def clean_segment_def resolve_def isAbsolute_def scenario_env_def)


text \<open>
  C10: the inferred filename and the destination depend on the URL's pathname
  only; a query string and a fragment change nothing.
\<close>

theorem filename_depends_on_pathname_only:
  "pathname u = pathname v \<Longrightarrow>
     inferFilenameFromUrl u = inferFilenameFromUrl v
     \<and> resolveOutputPath E None dir u = resolveOutputPath E None dir v"
  by (simp add: inferFilenameFromUrl_def resolveOutputPath_def)


theorem filename_depends_on_pathname_only_witness:
  "map_option (resolveOutputPath scenario_env None ''/work/dir'')
     (whatwg_URL ''https://example.com/files/report.pdf?v=1#top'' None)
   = map_option (resolveOutputPath scenario_env None ''/work/dir'')
     (whatwg_URL ''https://example.com/files/report.pdf'' None)
   \<and> map_option (resolveOutputPath scenario_env None ''/work/dir'')
     (whatwg_URL ''https://example.com/files/report.pdf?v=1#top'' None) = Some ''/work/dir/report.pdf''"
  using filename_depends_on_pathname_only [of
      "\<lparr>href = ''https://example.com/files/report.pdf?v=1#top'', protocol = ''https:'',
        host = ''example.com'', pathname = ''/files/report.pdf'', search = ''?v=1'', hash = ''#top''\<rparr>"
      "\<lparr>href = ''https://example.com/files/report.pdf'', protocol = ''https:'',
        host = ''example.com'', pathname = ''/files/report.pdf'', search = [], hash = []\<rparr>"
      scenario_env "''/work/dir''"]
  by (simp add: parse_report_pdf parse_report_pdf_query resolveOutputPath_report_pdf)

section \<open>The command-line download, step by step\<close>

declare download.simps [simp del]

lemma pipe_to_file_requests: "requests (snd (pipe_to_file E w out r)) = requests w"
  by (auto simp: pipe_to_file_def mkdir_def write_file_def split: write_outcome.splits)

lemma pipe_to_file_success:
  "\<not> mkdir_fails E (dirname out) \<Longrightarrow> write_outcome E out = WriteOk \<Longrightarrow> \<not> body_error r
   \<Longrightarrow> pipe_to_file E w out r =
       (Inr (), w\<lparr>mkdirs := mkdirs w @ [dirname out], files := (files w)(out \<mapsto> body r)\<rparr>)"
  by (simp add: pipe_to_file_def mkdir_def write_file_def)

lemma download_redirect:
  assumes "new_URL E u None = Some parsed"
    and "respond E (length (requests w)) parsed = Response r"
    and "is_redirect (status_code r) (location r)"
    and "redirects < MAX_REDIRECTS"
    and "new_URL E (header_value (location r)) (Some parsed) = Some next"
  shows "download E w u out redirects =
           download E (w\<lparr>requests := requests w @ [parsed]\<rparr>) (href next) out (redirects + 1)"
  using assms by (subst download.simps) simp

lemma download_too_many:
  assumes "new_URL E u None = Some parsed"
    and "respond E (length (requests w)) parsed = Response r"
    and "is_redirect (status_code r) (location r)"
    and "MAX_REDIRECTS \<le> redirects"
  shows "download E w u out redirects = (Inl TooManyRedirects, w\<lparr>requests := requests w @ [parsed]\<rparr>)"
  using assms by (subst download.simps) simp

lemma download_failed:
  assumes "new_URL E u None = Some parsed"
    and "respond E (length (requests w)) parsed = Response r"
    and "\<not> is_redirect (status_code r) (location r)"
    and "(status_code r) < 200 \<or> 300 \<le> (status_code r)"
  shows "download E w u out redirects =
           (Inl (DownloadFailed (status_code r)),
            w\<lparr>requests := requests w @ [parsed]\<rparr>)"
  using assms by (subst download.simps) auto

lemma download_success:
  assumes "new_URL E u None = Some parsed"
    and "respond E (length (requests w)) parsed = Response r"
    and "200 \<le> status_code r" and "status_code r < 300"
  shows "download E w u out redirects = pipe_to_file E (w\<lparr>requests := requests w @ [parsed]\<rparr>) out r"
  using assms by (subst download.simps) (auto simp: is_redirect_def)

lemma redirect_chain_parsed:
  "redirect_chain E k us \<Longrightarrow> length (parsed_urls E (butlast us)) = length us - 1"
  by (induction E k us rule: redirect_chain.induct) (auto split: option.splits net_outcome.splits)

lemma parsed_urls_snoc:
  "new_URL E u None = Some p \<Longrightarrow> parsed_urls E (us @ [u]) = parsed_urls E us @ [p]"
  by (induction us) (auto split: option.splits)

lemma download_chain:
  "redirect_chain E (length (requests w)) us \<Longrightarrow> redirects + (length us - 1) \<le> MAX_REDIRECTS
   \<Longrightarrow> download E w (hd us) out redirects =
       download E (w\<lparr>requests := requests w @ parsed_urls E (butlast us)\<rparr>) (last us) out
         (redirects + (length us - 1))"
proof (induction us arbitrary: w redirects rule: induct_list012)
  case 1
  then show ?case by simp
next
  case (2 u)
  then show ?case by simp
next
  case (3 u v us)
  from "3.prems"(1) obtain parsed r nxt where
    p: "new_URL E u None = Some parsed"
    and r: "respond E (length (requests w)) parsed = Response r"
    and red: "is_redirect (status_code r) (location r)"
    and n: "new_URL E (header_value (location r)) (Some parsed) = Some nxt" "href nxt = v"
    and rest: "redirect_chain E (Suc (length (requests w))) (v # us)"
    by (auto split: option.splits net_outcome.splits)
  let ?w1 = "w\<lparr>requests := requests w @ [parsed]\<rparr>"
  have "download E w u out redirects = download E ?w1 v out (redirects + 1)"
    using download_redirect [OF p r red _ n(1)] "3.prems"(2) n(2) by simp
  also have "\<dots> = download E (?w1\<lparr>requests := requests ?w1 @ parsed_urls E (butlast (v # us))\<rparr>)
                     (last (v # us)) out (redirects + 1 + (length (v # us) - 1))"
    using "3.IH"(2) [of ?w1 "redirects + 1"] rest "3.prems"(2) by simp
  finally show ?case using p by simp
qed

lemma download_chain_too_many:
  "redirect_chain E (length (requests w)) us \<Longrightarrow> redirects \<le> MAX_REDIRECTS
   \<Longrightarrow> MAX_REDIRECTS - redirects < length us - 1
   \<Longrightarrow> download E w (hd us) out redirects =
       (Inl TooManyRedirects,
        w\<lparr>requests := requests w @ parsed_urls E (take (MAX_REDIRECTS + 1 - redirects) us)\<rparr>)"
proof (induction us arbitrary: w redirects rule: induct_list012)
  case 1
  then show ?case by simp
next
  case (2 u)
  then show ?case by simp
next
  case (3 u v us)
  from "3.prems"(1) obtain parsed r nxt where
    p: "new_URL E u None = Some parsed"
    and r: "respond E (length (requests w)) parsed = Response r"
    and red: "is_redirect (status_code r) (location r)"
    and n: "new_URL E (header_value (location r)) (Some parsed) = Some nxt" "href nxt = v"
    and rest: "redirect_chain E (Suc (length (requests w))) (v # us)"
    by (auto split: option.splits net_outcome.splits)
  let ?w1 = "w\<lparr>requests := requests w @ [parsed]\<rparr>"
  show ?case
  proof (cases "redirects = MAX_REDIRECTS")
    case True
    then show ?thesis using download_too_many [OF p r red, of redirects out] p by simp
  next
    case False
    then have lt: "redirects < MAX_REDIRECTS" using "3.prems"(2) by simp
    have "download E w u out redirects = download E ?w1 v out (redirects + 1)"
      using download_redirect [OF p r red lt n(1)] n(2) by simp
    also have "\<dots> = (Inl TooManyRedirects,
        ?w1\<lparr>requests := requests ?w1 @ parsed_urls E (take (MAX_REDIRECTS + 1 - (redirects + 1)) (v # us))\<rparr>)"
      using "3.IH"(2) [of ?w1 "redirects + 1"] rest lt "3.prems"(3) by simp
    finally show ?thesis using p lt by (simp add: Suc_diff_le)
  qed
qed


lemma redirect_chain_take_parsed:
  "redirect_chain E k us \<Longrightarrow> n < length us \<Longrightarrow> length (parsed_urls E (take n us)) = n"
proof (induction us arbitrary: k n rule: induct_list012)
  case 1
  then show ?case by simp
next
  case (2 u)
  then show ?case by simp
next
  case (3 u v us)
  show ?case
  proof (cases n)
    case 0
    then show ?thesis by simp
  next
    case (Suc m)
    then show ?thesis using 3
      by (auto split: option.splits net_outcome.splits)
  qed
qed

lemma download_requests_bound:
  "redirects \<le> MAX_REDIRECTS \<Longrightarrow>
     length (requests (snd (download E w u out redirects))) + redirects
       \<le> length (requests w) + MAX_REDIRECTS + 1"
proof (induction E w u out redirects rule: download.induct)
  case (1 E w u out redirects)
  show ?case
  proof (cases "new_URL E u None")
    case None
    then show ?thesis using "1.prems" by (subst download.simps) simp
  next
    case (Some parsed)
    show ?thesis
    proof (cases "respond E (length (requests w)) parsed")
      case Refused
      then show ?thesis using Some "1.prems" by (subst download.simps) simp
    next
      case RequestError
      then show ?thesis using Some "1.prems" by (subst download.simps) simp
    next
      case (Response r)
      let ?c = "status_code r"
      show ?thesis
      proof (cases "is_redirect ?c (location r)")
        case False
        then show ?thesis using Some Response "1.prems"
          by (subst download.simps) (simp add: pipe_to_file_requests)
      next
        case True
        show ?thesis
        proof (cases "MAX_REDIRECTS \<le> redirects")
          case True
          then show ?thesis using Some Response \<open>is_redirect ?c (location r)\<close> "1.prems"
            by (subst download.simps) simp
        next
          case False
          show ?thesis
          proof (cases "new_URL E (header_value (location r)) (Some parsed)")
            case None
            then show ?thesis using Some Response \<open>is_redirect ?c (location r)\<close> False "1.prems"
              by (subst download.simps) simp
          next
            case (Some nxt)
            have "length (requests (snd (download E (w\<lparr>requests := requests w @ [parsed]\<rparr>) (href nxt) out (redirects + 1)))) + (redirects + 1)
                    \<le> length (requests (w\<lparr>requests := requests w @ [parsed]\<rparr>)) + MAX_REDIRECTS + 1"
              using "1.IH" [OF \<open>new_URL E u None = Some parsed\<close> Response _ _ Some]
                \<open>is_redirect ?c (location r)\<close> False by simp
            moreover have "download E w u out redirects =
                download E (w\<lparr>requests := requests w @ [parsed]\<rparr>) (href nxt) out (redirects + 1)"
              using download_redirect [OF \<open>new_URL E u None = Some parsed\<close> Response \<open>is_redirect ?c (location r)\<close> _ Some]
                False by simp
            ultimately show ?thesis by simp
          qed
        qed
      qed
    qed
  qed
qed

lemma last_parsed:
  "us \<noteq> [] \<Longrightarrow> new_URL E (last us) None = Some p
   \<Longrightarrow> parsed_urls E us = parsed_urls E (butlast us) @ [p]"
  using parsed_urls_snoc [of E "last us" p "butlast us"] by simp

lemma redirect_chain_not_Nil: "redirect_chain E k us \<Longrightarrow> us \<noteq> []"
  by (cases us) auto


section \<open>The plugin's \<^verbatim>\<open>execute\<close>, case by case\<close>

lemma execute_success:
  assumes "new_URL E (arg_url args) None = Some parsedUrl"
    and "protocol parsedUrl \<in> {''http:'', ''https:''}"
    and "fetch E parsedUrl = Inr response"
    and "ok response"
    and "arrayBuffer response = Inr buf"
    and "\<not> mkdir_fails E (dirname (resolveOutputPath E (arg_outputPath args) directory parsedUrl))"
    and "write_outcome E (resolveOutputPath E (arg_outputPath args) directory parsedUrl) = WriteOk"
  shows "execute E w args directory =
           (Inr \<lparr>url = href parsedUrl,
                 outputPath = resolveOutputPath E (arg_outputPath args) directory parsedUrl,
                 bytesWritten = length buf\<rparr>,
            w\<lparr>requests := requests w @ [parsedUrl],
              mkdirs := mkdirs w @ [dirname (resolveOutputPath E (arg_outputPath args) directory parsedUrl)],
              files := (files w)(resolveOutputPath E (arg_outputPath args) directory parsedUrl \<mapsto> buf)\<rparr>)"
  using assms by (auto simp: execute_def mkdir_def write_file_def Let_def)

lemma execute_Inr:
  assumes "execute E w args directory = (Inr res, w')"
  shows "\<exists>parsedUrl response buf.
           new_URL E (arg_url args) None = Some parsedUrl
           \<and> protocol parsedUrl \<in> {''http:'', ''https:''}
           \<and> fetch E parsedUrl = Inr response \<and> ok response \<and> arrayBuffer response = Inr buf
           \<and> res = \<lparr>url = href parsedUrl,
                     outputPath = resolveOutputPath E (arg_outputPath args) directory parsedUrl,
                     bytesWritten = length buf\<rparr>
           \<and> w' = w\<lparr>requests := requests w @ [parsedUrl],
                    mkdirs := mkdirs w @ [dirname (resolveOutputPath E (arg_outputPath args) directory parsedUrl)],
                    files := (files w)(resolveOutputPath E (arg_outputPath args) directory parsedUrl \<mapsto> buf)\<rparr>"
  using assms
  by (auto simp: execute_def mkdir_def write_file_def Let_def
      split: option.splits if_splits sum.splits write_outcome.splits)

lemma execute_no_body:
  assumes "execute E w args directory = (res, w')"
    and "\<not> (\<exists>parsedUrl response buf. new_URL E (arg_url args) None = Some parsedUrl
              \<and> fetch E parsedUrl = Inr response \<and> arrayBuffer response = Inr buf)"
  shows "mkdirs w' = mkdirs w \<and> files w' = files w \<and> isl res"
  using assms
  by (auto simp: execute_def Let_def split: option.splits if_splits sum.splits)



section \<open>The request log\<close>

lemma download_requests_prefix:
  "\<exists>rs. requests (snd (download E w u out redirects)) = requests w @ rs"
proof (induction E w u out redirects rule: download.induct)
  case (1 E w u out redirects)
  show ?case
  proof (cases "new_URL E u None")
    case None
    then show ?thesis by (subst download.simps) simp
  next
    case (Some parsed)
    show ?thesis
    proof (cases "respond E (length (requests w)) parsed")
      case Refused
      then show ?thesis using Some by (subst download.simps) simp
    next
      case RequestError
      then show ?thesis using Some by (subst download.simps) simp
    next
      case (Response r)
      show ?thesis
      proof (cases "is_redirect (status_code r) (location r) \<and> redirects < MAX_REDIRECTS
          \<and> new_URL E (header_value (location r)) (Some parsed) \<noteq> None")
        case False
        then show ?thesis using Some Response
          by (subst download.simps) (auto simp: pipe_to_file_requests)
      next
        case True
        then obtain nxt where n: "new_URL E (header_value (location r)) (Some parsed) = Some nxt"
          by auto
        have "\<exists>rs. requests (snd (download E (w\<lparr>requests := requests w @ [parsed]\<rparr>) (href nxt) out (redirects + 1)))
                = requests (w\<lparr>requests := requests w @ [parsed]\<rparr>) @ rs"
          using "1.IH" [OF Some Response _ _ n] True by simp
        moreover have "download E w u out redirects =
            download E (w\<lparr>requests := requests w @ [parsed]\<rparr>) (href nxt) out (redirects + 1)"
          using download_redirect [OF Some Response _ _ n] True by simp
        ultimately show ?thesis by auto
      qed
    qed
  qed
qed

lemma download_refused:
  assumes "new_URL E u None = Some p"
    and "respond E (length (requests w)) p = Refused"
  shows "download E w u out redirects = (Inl ProtocolError, w)"
  using assms by (subst download.simps) simp

lemma download_requests_first:
  assumes "new_URL E u None = Some p"
    and "respond E (length (requests w)) p \<noteq> Refused"
  shows "take (Suc (length (requests w))) (requests (snd (download E w u out redirects)))
           = requests w @ [p]"
proof (cases "respond E (length (requests w)) p")
  case Refused
  then show ?thesis using assms by simp
next
  case RequestError
  then show ?thesis using assms by (subst download.simps) simp
next
  case (Response r)
  show ?thesis
  proof (cases "is_redirect (status_code r) (location r) \<and> redirects < MAX_REDIRECTS
      \<and> new_URL E (header_value (location r)) (Some p) \<noteq> None")
    case False
    then show ?thesis using assms Response
      by (subst download.simps) (auto simp: pipe_to_file_requests)
  next
    case True
    then obtain nxt where n: "new_URL E (header_value (location r)) (Some p) = Some nxt"
      by auto
    obtain rs where "requests (snd (download E (w\<lparr>requests := requests w @ [p]\<rparr>) (href nxt) out (redirects + 1)))
        = requests (w\<lparr>requests := requests w @ [p]\<rparr>) @ rs"
      using download_requests_prefix by blast
    moreover have "download E w u out redirects =
        download E (w\<lparr>requests := requests w @ [p]\<rparr>) (href nxt) out (redirects + 1)"
      using download_redirect [OF assms(1) Response _ _ n] True by simp
    ultimately show ?thesis by simp
  qed
qed

section \<open>The scenario of the moved file\<close>

lemma scenario_sel:
  "new_URL (scenario server fetched) = whatwg_URL"
  "respond (scenario server fetched) = server"
  "fetch (scenario server fetched) = fetched"
  "\<not> mkdir_fails (scenario server fetched) d"
  "write_outcome (scenario server fetched) f = WriteOk"
  "resolveOutputPath (scenario server fetched) = resolveOutputPath scenario_env"
  by (auto simp: scenario_def scenario_env_def resolveOutputPath_def fun_eq_iff split: option.splits)

lemma execute_moved:
  "execute (scenario server moved_fetch) empty_world
     \<lparr>arg_url = ''https://example.com/files/report.pdf'', arg_outputPath = None\<rparr> ''/work/dir''
   = (Inr \<lparr>url = ''https://example.com/files/report.pdf'', outputPath = ''/work/dir/report.pdf'',
           bytesWritten = 3\<rparr>,
      \<lparr>requests = [https_url ''example.com'' ''/files/report.pdf''], mkdirs = [''/work/dir''],
       files = [''/work/dir/report.pdf'' \<mapsto> [80, 68, 70]]\<rparr>)"
  by (simp add: execute_def scenario_def scenario_env_def parse_https moved_fetch_def https_url_sel
      ok_def empty_world_def mkdir_def write_file_def resolveOutputPath_def inferFilenameFromUrl_def
      pop_def resolve_def isAbsolute_def dirname_def Let_def)

lemma moved_chain:
  "redirect_chain (scenario moved_server fetched) 0
     [''https://example.com/files/report.pdf'', ''https://example.com/v2/report.pdf'']"
  by (simp add: scenario_def scenario_env_def parse_https resolve_location moved_server_def
      is_redirect_def status_code_def header_value_def https_url_sel)

lemma download_moved:
  "download (scenario moved_server fetched) empty_world ''https://example.com/files/report.pdf''
     ''/work/dir/report.pdf'' 0
   = (Inr (),
      \<lparr>requests = [https_url ''example.com'' ''/files/report.pdf'',
                   https_url ''example.com'' ''/v2/report.pdf''],
       mkdirs = [''/work/dir''],
       files = [''/work/dir/report.pdf'' \<mapsto> [80, 68, 70]]\<rparr>)"
proof -
  let ?E = "scenario moved_server fetched"
  let ?a = "https_url ''example.com'' ''/files/report.pdf''"
  let ?b = "https_url ''example.com'' ''/v2/report.pdf''"
  let ?w1 = "empty_world\<lparr>requests := requests empty_world @ [?a]\<rparr>"
  have e: "new_URL ?E = whatwg_URL" "respond ?E = moved_server" "\<not> mkdir_fails ?E d"
    "write_outcome ?E f = WriteOk" for d f
    by (simp_all add: scenario_def scenario_env_def)
  have "download ?E empty_world ''https://example.com/files/report.pdf'' ''/work/dir/report.pdf'' 0
      = download ?E ?w1 (href ?b) ''/work/dir/report.pdf'' (0 + 1)"
    by (rule download_redirect [where r = "\<lparr>statusCode = Some 302, location = Some ''/v2/report.pdf'',
            body = [], body_error = False\<rparr>"])
      (simp_all add: e parse_https resolve_location moved_server_def is_redirect_def status_code_def
        header_value_def https_url_sel empty_world_def MAX_REDIRECTS_def)
  also have "\<dots> = pipe_to_file ?E (?w1\<lparr>requests := requests ?w1 @ [?b]\<rparr>) ''/work/dir/report.pdf''
      \<lparr>statusCode = Some 200, location = None, body = [80, 68, 70], body_error = False\<rparr>"
    by (rule download_success)
      (simp_all add: e parse_https moved_server_def status_code_def https_url_sel empty_world_def)
  also have "\<dots> = (Inr (),
      \<lparr>requests = [?a, ?b], mkdirs = [''/work/dir''],
       files = [''/work/dir/report.pdf'' \<mapsto> [80, 68, 70]]\<rparr>)"
    by (simp add: pipe_to_file_success e empty_world_def dirname_def)
  finally show ?thesis .
qed

section \<open>Redirect limit\<close>

text \<open>
  C2: a chain of more than 5 redirects makes \<^verbatim>\<open>download\<close> fail with
  \<^verbatim>\<open>TooManyRedirects\<close> after exactly six requests (the first six URLs of the
  chain; the seventh is never requested), with no directory made and no file
  written. The counter starts at 0 in \<^verbatim>\<open>main\<close>, and no download started at 0
  issues more than six requests.
\<close>

theorem too_many_redirects:
  assumes "redirect_chain E (length (requests w)) us"
    and "5 < length us - 1"
  shows "download E w (hd us) out 0 =
           (Inl TooManyRedirects, w\<lparr>requests := requests w @ parsed_urls E (take 6 us)\<rparr>)
         \<and> length (parsed_urls E (take 6 us)) = 6
         \<and> length (requests (snd (download E w start out 0))) \<le> length (requests w) + 6"
proof -
  have "download E w (hd us) out 0 =
          (Inl TooManyRedirects,
           w\<lparr>requests := requests w @ parsed_urls E (take (MAX_REDIRECTS + 1 - 0) us)\<rparr>)"
    using assms by (intro download_chain_too_many) (simp_all add: MAX_REDIRECTS_def)
  moreover have "length (parsed_urls E (take 6 us)) = 6"
    using assms by (intro redirect_chain_take_parsed [of E "length (requests w)"]) simp_all
  moreover have "length (requests (snd (download E w start out 0))) \<le> length (requests w) + 6"
    using download_requests_bound [of 0 E w start out] by (simp add: MAX_REDIRECTS_def)
  ultimately show ?thesis by (simp add: MAX_REDIRECTS_def)
qed


theorem too_many_redirects_witness:
  "download (scenario (status_server 301 (Some ''/loop'')) no_fetch) empty_world
     ''https://example.com/start'' ''/work/dir/start'' 0
   = (Inl TooManyRedirects,
      \<lparr>requests = https_url ''example.com'' ''/start'' # replicate 5 (https_url ''example.com'' ''/loop''),
       mkdirs = [], files = Map.empty\<rparr>)"
proof -
  let ?E = "scenario (status_server 301 (Some ''/loop'')) no_fetch"
  let ?us = "''https://example.com/start'' # replicate 6 ''https://example.com/loop''"
  have n: "new_URL ?E = whatwg_URL" "respond ?E = status_server 301 (Some ''/loop'')"
    by (simp_all add: scenario_def scenario_env_def)
  have chain: "redirect_chain ?E (length (requests empty_world)) ?us"
    by (simp add: n parse_https resolve_location eval_nat_numeral status_server_def is_redirect_def status_code_def
        header_value_def https_url_sel)
  have "parsed_urls ?E (take 6 ?us) =
          https_url ''example.com'' ''/start'' # replicate 5 (https_url ''example.com'' ''/loop'')"
    by (simp add: n parse_https eval_nat_numeral)
  then show ?thesis
    using too_many_redirects [OF chain, of "''/work/dir/start''"] by (simp add: empty_world_def)
qed



section \<open>Status handling\<close>

text \<open>
  C3: a final response with a status outside 200 to 299 makes the operation fail
  with \<^verbatim>\<open>DownloadFailed\<close> and that status, and the only effect is the requests:
  no directory is made and no file is written. In the command-line program the
  response ends a redirect chain of at most 5 redirects and is not a redirect
  that \<^verbatim>\<open>download\<close> follows; in the plugin it is the response of \<^verbatim>\<open>fetch\<close>.
\<close>

theorem failed_status_fails:
  "(redirect_chain E (length (requests w)) us \<and> length us - 1 \<le> 5
      \<and> new_URL E (last us) None = Some p
      \<and> respond E (length (requests w) + (length us - 1)) p = Response r
      \<and> \<not> is_redirect (status_code r) (location r)
      \<and> (status_code r < 200 \<or> 300 \<le> status_code r)
    \<longrightarrow> download E w (hd us) out 0 =
          (Inl (DownloadFailed (status_code r)), w\<lparr>requests := requests w @ parsed_urls E us\<rparr>))
   \<and> (new_URL E (arg_url args) None = Some parsedUrl
      \<and> protocol parsedUrl \<in> {''http:'', ''https:''}
      \<and> fetch E parsedUrl = Inr response
      \<and> (status response < 200 \<or> 300 \<le> status response)
    \<longrightarrow> execute E v args directory =
          (Inl (DownloadFailed (status response)), v\<lparr>requests := requests v @ [parsedUrl]\<rparr>))"
proof (intro conjI impI)
  assume a: "redirect_chain E (length (requests w)) us \<and> length us - 1 \<le> 5
      \<and> new_URL E (last us) None = Some p
      \<and> respond E (length (requests w) + (length us - 1)) p = Response r
      \<and> \<not> is_redirect (status_code r) (location r)
      \<and> (status_code r < 200 \<or> 300 \<le> status_code r)"
  then have chain: "redirect_chain E (length (requests w)) us" by simp
  let ?w = "w\<lparr>requests := requests w @ parsed_urls E (butlast us)\<rparr>"
  have len: "length (requests ?w) = length (requests w) + (length us - 1)"
    using redirect_chain_parsed [OF chain] by simp
  have "download E w (hd us) out 0 = download E ?w (last us) out (0 + (length us - 1))"
    using a by (intro download_chain) (simp_all add: MAX_REDIRECTS_def)
  also have "\<dots> = (Inl (DownloadFailed (status_code r)), ?w\<lparr>requests := requests ?w @ [p]\<rparr>)"
    using a len by (intro download_failed) simp_all
  finally show "download E w (hd us) out 0 =
      (Inl (DownloadFailed (status_code r)), w\<lparr>requests := requests w @ parsed_urls E us\<rparr>)"
    using a last_parsed [of us E p] redirect_chain_not_Nil [OF chain] by simp
next
  assume "new_URL E (arg_url args) None = Some parsedUrl
      \<and> protocol parsedUrl \<in> {''http:'', ''https:''}
      \<and> fetch E parsedUrl = Inr response
      \<and> (status response < 200 \<or> 300 \<le> status response)"
  then show "execute E v args directory =
      (Inl (DownloadFailed (status response)), v\<lparr>requests := requests v @ [parsedUrl]\<rparr>)"
    by (auto simp: execute_def ok_def Let_def)
qed

theorem failed_status_fails_witness:
  "download (scenario (status_server 404 None) (status_fetch 404 (Inr []))) empty_world
     ''https://example.com/files/report.pdf'' ''/work/dir/report.pdf'' 0
   = (Inl (DownloadFailed 404),
      \<lparr>requests = [https_url ''example.com'' ''/files/report.pdf''], mkdirs = [], files = Map.empty\<rparr>)
   \<and> execute (scenario (status_server 404 None) (status_fetch 404 (Inr []))) empty_world
       \<lparr>arg_url = ''https://example.com/files/report.pdf'', arg_outputPath = None\<rparr> ''/work/dir''
     = (Inl (DownloadFailed 404),
        \<lparr>requests = [https_url ''example.com'' ''/files/report.pdf''], mkdirs = [], files = Map.empty\<rparr>)"
  using failed_status_fails [where E = "scenario (status_server 404 None) (status_fetch 404 (Inr []))"
      and w = empty_world and us = "[''https://example.com/files/report.pdf'']"
      and p = "https_url ''example.com'' ''/files/report.pdf''"
      and r = "\<lparr>statusCode = Some 404, location = None, body = [], body_error = False\<rparr>"
      and out = "''/work/dir/report.pdf''"
      and args = "\<lparr>arg_url = ''https://example.com/files/report.pdf'', arg_outputPath = None\<rparr>"
      and parsedUrl = "https_url ''example.com'' ''/files/report.pdf''"
      and response = "\<lparr>url_list = [''https://example.com/files/report.pdf''], status = 404, arrayBuffer = Inr []\<rparr>"
      and v = empty_world and directory = "''/work/dir''"]
  by (simp add: scenario_def scenario_env_def parse_https status_server_def
      status_fetch_def is_redirect_def status_code_def https_url_sel empty_world_def)


text \<open>
  C8: a response with a redirect status and no Location header is not followed:
  \<^verbatim>\<open>download\<close> fails with \<^verbatim>\<open>DownloadFailed\<close> and that status.
\<close>

theorem redirect_without_location_fails:
  assumes "new_URL E u None = Some parsed"
    and "respond E (length (requests w)) parsed = Response r"
    and "statusCode r = Some c"
    and "c \<in> {301, 302, 303, 307, 308}"
    and "location r = None"
  shows "download E w u out redirects =
           (Inl (DownloadFailed c), w\<lparr>requests := requests w @ [parsed]\<rparr>)"
  using download_failed [OF assms(1,2), of out redirects] assms(3-5)
  by (auto simp: is_redirect_def status_code_def)

theorem redirect_without_location_fails_witness:
  "download (scenario (status_server 302 None) no_fetch) empty_world
     ''https://example.com/files/report.pdf'' ''/work/dir/report.pdf'' 0
   = (Inl (DownloadFailed 302),
      \<lparr>requests = [https_url ''example.com'' ''/files/report.pdf''], mkdirs = [], files = Map.empty\<rparr>)"
  using redirect_without_location_fails [where E = "scenario (status_server 302 None) no_fetch"
      and u = "''https://example.com/files/report.pdf''"
      and parsed = "https_url ''example.com'' ''/files/report.pdf''"
      and w = empty_world
      and r = "\<lparr>statusCode = Some 302, location = None, body = [], body_error = False\<rparr>"
      and c = 302 and out = "''/work/dir/report.pdf''" and redirects = 0]
  by (simp add: scenario_def scenario_env_def parse_https status_server_def empty_world_def)


section \<open>Scheme validation\<close>

text \<open>
  C4: a URL whose scheme is neither http nor https makes the plugin's
  \<^verbatim>\<open>execute\<close> and the command-line \<^verbatim>\<open>main\<close> fail with the unsupported-scheme
  error, and the world is unchanged: no request, no directory, no file.
\<close>

theorem unsupported_scheme_rejected:
  assumes "new_URL E a None = Some parsedUrl"
    and "protocol parsedUrl \<notin> {''http:'', ''https:''}"
  shows "(arg_url args = a \<longrightarrow> execute E w args directory = (Inl UnsupportedScheme, w))
         \<and> (a \<noteq> [] \<and> a \<noteq> ''--help'' \<and> a \<noteq> ''-h''
              \<longrightarrow> main E w (a # rest) = (Inl UnsupportedScheme, w))"
  using assms by (auto simp: execute_def main_def parseArgs_def)

theorem unsupported_scheme_rejected_witness:
  "execute scenario_env empty_world \<lparr>arg_url = ''ftp://example.com/f.zip'', arg_outputPath = None\<rparr>
     ''/work/dir'' = (Inl UnsupportedScheme, empty_world)
   \<and> main scenario_env empty_world [''ftp://example.com/f.zip''] = (Inl UnsupportedScheme, empty_world)"
proof -
  have "new_URL scenario_env ''ftp://example.com/f.zip'' None =
          Some \<lparr>href = ''ftp://example.com/f.zip'', protocol = ''ftp:'', host = ''example.com'',
                pathname = ''/f.zip'', search = [], hash = []\<rparr>"
    by (simp add: scenario_simps)
  from unsupported_scheme_rejected [OF this, of
      "\<lparr>arg_url = ''ftp://example.com/f.zip'', arg_outputPath = None\<rparr>" empty_world "''/work/dir''" "[]"]
  show ?thesis by simp
qed


section \<open>Writing the body\<close>

text \<open>
  C9, as the code has it: in the plugin no directory is made and no file is
  written before the whole body has been received. When reading the body fails,
  \<^verbatim>\<open>execute\<close> fails with that error and the file system is as it was, so no
  transport error leaves a truncated file; and whenever a run of \<^verbatim>\<open>execute\<close>
  has changed the file system, \<^verbatim>\<open>fetch\<close> had returned a response whose body was
  read to the end.
\<close>

theorem no_filesystem_operation_before_body:
  "(new_URL E (arg_url args) None = Some parsedUrl \<and> fetch E parsedUrl = Inr response
      \<and> arrayBuffer response = Inl e
    \<longrightarrow> isl (fst (execute E w args directory))
        \<and> mkdirs (snd (execute E w args directory)) = mkdirs w
        \<and> files (snd (execute E w args directory)) = files w
        \<and> (protocol parsedUrl \<in> {''http:'', ''https:''} \<and> ok response
             \<longrightarrow> execute E w args directory = (Inl e, w\<lparr>requests := requests w @ [parsedUrl]\<rparr>)))
   \<and> (mkdirs (snd (execute E w args directory)) \<noteq> mkdirs w
        \<or> files (snd (execute E w args directory)) \<noteq> files w
    \<longrightarrow> (\<exists>p r buf. new_URL E (arg_url args) None = Some p \<and> fetch E p = Inr r
                  \<and> arrayBuffer r = Inr buf))"
proof (intro conjI impI)
  assume a: "new_URL E (arg_url args) None = Some parsedUrl \<and> fetch E parsedUrl = Inr response
      \<and> arrayBuffer response = Inl e"
  then have none: "\<not> (\<exists>p r buf. new_URL E (arg_url args) None = Some p
      \<and> fetch E p = Inr r \<and> arrayBuffer r = Inr buf)"
    by auto
  obtain res w' where x: "execute E w args directory = (res, w')"
    by (cases "execute E w args directory")
  from execute_no_body [OF x none]
  show "isl (fst (execute E w args directory))"
    and "mkdirs (snd (execute E w args directory)) = mkdirs w"
    and "files (snd (execute E w args directory)) = files w"
    by (simp_all add: x)
  assume "protocol parsedUrl \<in> {''http:'', ''https:''} \<and> ok response"
  then show "execute E w args directory = (Inl e, w\<lparr>requests := requests w @ [parsedUrl]\<rparr>)"
    using a by (auto simp: execute_def Let_def)
next
  assume changed: "mkdirs (snd (execute E w args directory)) \<noteq> mkdirs w
        \<or> files (snd (execute E w args directory)) \<noteq> files w"
  obtain res w' where x: "execute E w args directory = (res, w')"
    by (cases "execute E w args directory")
  show "\<exists>p r buf. new_URL E (arg_url args) None = Some p \<and> fetch E p = Inr r
                  \<and> arrayBuffer r = Inr buf"
  proof (rule ccontr)
    assume "\<not> ?thesis"
    from execute_no_body [OF x this] changed x show False by simp
  qed
qed

theorem no_filesystem_operation_before_body_witness:
  "execute (scenario no_server (status_fetch 200 (Inl TransportError))) empty_world
     \<lparr>arg_url = ''https://example.com/files/report.pdf'', arg_outputPath = None\<rparr> ''/work/dir''
   = (Inl TransportError,
      \<lparr>requests = [https_url ''example.com'' ''/files/report.pdf''], mkdirs = [], files = Map.empty\<rparr>)
   \<and> mkdirs (snd (execute (scenario no_server moved_fetch) empty_world
        \<lparr>arg_url = ''https://example.com/files/report.pdf'', arg_outputPath = None\<rparr> ''/work/dir''))
     = [''/work/dir'']
   \<and> (\<exists>p r buf. new_URL (scenario no_server moved_fetch) ''https://example.com/files/report.pdf'' None = Some p
         \<and> fetch (scenario no_server moved_fetch) p = Inr r \<and> arrayBuffer r = Inr buf)"
proof -
  let ?args = "\<lparr>arg_url = ''https://example.com/files/report.pdf'', arg_outputPath = None\<rparr>"
  let ?E = "scenario no_server (status_fetch 200 (Inl TransportError))"
  let ?F = "scenario no_server moved_fetch"
  have 1: "execute ?E empty_world ?args ''/work/dir''
      = (Inl TransportError,
         \<lparr>requests = [https_url ''example.com'' ''/files/report.pdf''], mkdirs = [], files = Map.empty\<rparr>)"
    using no_filesystem_operation_before_body [where E = ?E and args = ?args
        and parsedUrl = "https_url ''example.com'' ''/files/report.pdf''"
        and response = "\<lparr>url_list = [''https://example.com/files/report.pdf''], status = 200,
                           arrayBuffer = Inl TransportError\<rparr>"
        and e = TransportError and w = empty_world and directory = "''/work/dir''"]
    by (simp add: scenario_def scenario_env_def parse_https status_fetch_def https_url_sel ok_def
        empty_world_def)
  have 2: "mkdirs (snd (execute ?F empty_world ?args ''/work/dir'')) = [''/work/dir'']"
    by (simp add: execute_def scenario_def scenario_env_def parse_https moved_fetch_def https_url_sel
        ok_def empty_world_def mkdir_def write_file_def resolveOutputPath_def inferFilenameFromUrl_def
        pop_def resolve_def isAbsolute_def dirname_def Let_def)
  then have "mkdirs (snd (execute ?F empty_world ?args ''/work/dir'')) \<noteq> mkdirs empty_world"
    by (simp add: empty_world_def)
  with no_filesystem_operation_before_body [where E = ?F and args = ?args and w = empty_world
      and directory = "''/work/dir''"]
  have "\<exists>p r buf. new_URL ?F (arg_url ?args) None = Some p \<and> fetch ?F p = Inr r \<and> arrayBuffer r = Inr buf"
    by blast
  then show ?thesis using 1 2 by simp
qed


text \<open>
  C9 as stated fails: the plugin can leave a truncated file. When the write
  fails after one byte of a body of three, \<^verbatim>\<open>execute\<close> fails with a file-system
  error, and it has made the directory and left the first byte at the output
  path.
\<close>

theorem truncated_file_counterexample:
  "fetch (failing_write 1 (scenario no_server moved_fetch))
       (https_url ''example.com'' ''/files/report.pdf'')
     = Inr \<lparr>url_list = [''https://example.com/files/report.pdf'',
                         ''https://example.com/v2/report.pdf''],
            status = 200, arrayBuffer = Inr [80, 68, 70]\<rparr>
   \<and> execute (failing_write 1 (scenario no_server moved_fetch)) empty_world
       \<lparr>arg_url = ''https://example.com/files/report.pdf'', arg_outputPath = None\<rparr> ''/work/dir''
     = (Inl FilesystemError,
        \<lparr>requests = [https_url ''example.com'' ''/files/report.pdf''], mkdirs = [''/work/dir''],
         files = [''/work/dir/report.pdf'' \<mapsto> [80]]\<rparr>)"
  by (simp add: execute_def failing_write_def scenario_def scenario_env_def parse_https
      moved_fetch_def https_url_sel ok_def empty_world_def mkdir_def write_file_def
      resolveOutputPath_def inferFilenameFromUrl_def pop_def resolve_def isAbsolute_def
      dirname_def Let_def)

text \<open>
  C5: a successful download writes exactly the bytes of the response body to the
  output path, and nothing else; the plugin's \<^verbatim>\<open>bytesWritten\<close> is their number.
  The body is the one \<^verbatim>\<open>fetch\<close> returned in the plugin, and the one of the final
  response, after a chain of at most 5 redirects, in the command-line program.
\<close>

theorem body_written_exactly:
  "(execute E w args directory = (Inr res, w')
      \<and> new_URL E (arg_url args) None = Some parsedUrl
      \<and> fetch E parsedUrl = Inr response \<and> arrayBuffer response = Inr B
    \<longrightarrow> files w' = (files w)(outputPath res \<mapsto> B) \<and> bytesWritten res = length B)
   \<and> (redirect_chain E (length (requests v)) us \<and> length us - 1 \<le> 5
      \<and> new_URL E (last us) None = Some p
      \<and> respond E (length (requests v) + (length us - 1)) p = Response r
      \<and> \<not> is_redirect (status_code r) (location r)
      \<and> download E v (hd us) out 0 = (Inr (), v')
    \<longrightarrow> files v' = (files v)(out \<mapsto> body r))"
proof (intro conjI impI)
  assume a: "execute E w args directory = (Inr res, w')
      \<and> new_URL E (arg_url args) None = Some parsedUrl
      \<and> fetch E parsedUrl = Inr response \<and> arrayBuffer response = Inr B"
  then have x: "execute E w args directory = (Inr res, w')" by simp
  from execute_Inr [OF x] a
  show "files w' = (files w)(outputPath res \<mapsto> B)" and "bytesWritten res = length B"
    by auto
next
  assume a: "redirect_chain E (length (requests v)) us \<and> length us - 1 \<le> 5
      \<and> new_URL E (last us) None = Some p
      \<and> respond E (length (requests v) + (length us - 1)) p = Response r
      \<and> \<not> is_redirect (status_code r) (location r)
      \<and> download E v (hd us) out 0 = (Inr (), v')"
  then have chain: "redirect_chain E (length (requests v)) us" by simp
  let ?v = "v\<lparr>requests := requests v @ parsed_urls E (butlast us)\<rparr>"
  have len: "length (requests ?v) = length (requests v) + (length us - 1)"
    using redirect_chain_parsed [OF chain] by simp
  have d: "download E v (hd us) out 0 = download E ?v (last us) out (0 + (length us - 1))"
    using a by (intro download_chain) (simp_all add: MAX_REDIRECTS_def)
  have r: "respond E (length (requests ?v)) p = Response r" using a len by simp
  show "files v' = (files v)(out \<mapsto> body r)"
  proof (cases "status_code r < 200 \<or> 300 \<le> status_code r")
    case True
    have "download E ?v (last us) out (0 + (length us - 1))
        = (Inl (DownloadFailed (status_code r)), ?v\<lparr>requests := requests ?v @ [p]\<rparr>)"
      using a r True by (intro download_failed) simp_all
    then show ?thesis using a d by simp
  next
    case False
    have "download E ?v (last us) out (0 + (length us - 1))
        = pipe_to_file E (?v\<lparr>requests := requests ?v @ [p]\<rparr>) out r"
      using a r False by (intro download_success) simp_all
    then have "pipe_to_file E (?v\<lparr>requests := requests ?v @ [p]\<rparr>) out r = (Inr (), v')"
      using a d by simp
    then show ?thesis
      by (auto simp: pipe_to_file_def mkdir_def write_file_def
          split: if_splits write_outcome.splits)
  qed
qed


theorem body_written_exactly_witness:
  "files (snd (execute (scenario moved_server moved_fetch) empty_world
       \<lparr>arg_url = ''https://example.com/files/report.pdf'', arg_outputPath = None\<rparr> ''/work/dir''))
     = [''/work/dir/report.pdf'' \<mapsto> [80, 68, 70]]
   \<and> bytesWritten \<lparr>url = ''https://example.com/files/report.pdf'',
        outputPath = ''/work/dir/report.pdf'', bytesWritten = 3\<rparr> = length [80, 68, 70 :: 8 word]
   \<and> files (snd (download (scenario moved_server moved_fetch) empty_world
        ''https://example.com/files/report.pdf'' ''/work/dir/report.pdf'' 0))
     = [''/work/dir/report.pdf'' \<mapsto> [80, 68, 70]]"
  using body_written_exactly [where E = "scenario moved_server moved_fetch" and w = empty_world
      and args = "\<lparr>arg_url = ''https://example.com/files/report.pdf'', arg_outputPath = None\<rparr>"
      and directory = "''/work/dir''"
      and res = "\<lparr>url = ''https://example.com/files/report.pdf'',
                   outputPath = ''/work/dir/report.pdf'', bytesWritten = 3\<rparr>"
      and w' = "\<lparr>requests = [https_url ''example.com'' ''/files/report.pdf''], mkdirs = [''/work/dir''],
                  files = [''/work/dir/report.pdf'' \<mapsto> [80, 68, 70]]\<rparr>"
      and parsedUrl = "https_url ''example.com'' ''/files/report.pdf''"
      and response = "\<lparr>url_list = [''https://example.com/files/report.pdf'',
                                       ''https://example.com/v2/report.pdf''],
                         status = 200, arrayBuffer = Inr [80, 68, 70]\<rparr>"
      and B = "[80, 68, 70]"
      and v = empty_world
      and us = "[''https://example.com/files/report.pdf'', ''https://example.com/v2/report.pdf'']"
      and p = "https_url ''example.com'' ''/v2/report.pdf''"
      and r = "\<lparr>statusCode = Some 200, location = None, body = [80, 68, 70], body_error = False\<rparr>"
      and out = "''/work/dir/report.pdf''"
      and v' = "\<lparr>requests = [https_url ''example.com'' ''/files/report.pdf'',
                               https_url ''example.com'' ''/v2/report.pdf''],
                  mkdirs = [''/work/dir''],
                  files = [''/work/dir/report.pdf'' \<mapsto> [80, 68, 70]]\<rparr>"]
    execute_moved [of moved_server] download_moved [of moved_fetch] moved_chain [of moved_fetch]
  by (simp add: scenario_def scenario_env_def parse_https moved_fetch_def moved_server_def
      https_url_sel is_redirect_def status_code_def empty_world_def)



section \<open>Following redirects\<close>

text \<open>
  C7, as the code has it, for a response with a redirect status and a Location
  header \<open>l\<close>. When \<open>l\<close> is not empty and fewer than 5 redirects have been
  followed, \<^verbatim>\<open>download\<close> resolves \<open>l\<close> against the URL just requested and
  continues with the result; when \<open>l\<close> does not resolve, \<^verbatim>\<open>new URL\<close> throws in
  the response callback and nothing more is requested. The resolved URL is the
  next one requested, unless the HTTP client refuses it; then the download
  fails and nothing more is sent. When \<open>l\<close> is empty the response is not
  followed: \<^verbatim>\<open>download\<close> fails with \<^verbatim>\<open>DownloadFailed\<close> and the status, as it
  does without the header. In the scenario, a 302 with Location
  \<^verbatim>\<open>/v2/report.pdf\<close> for \<^verbatim>\<open>https://example.com/files/report.pdf\<close> leads to a
  request for \<^verbatim>\<open>https://example.com/v2/report.pdf\<close>.
\<close>

theorem redirect_resolved_against_current:
  assumes "new_URL E u None = Some parsed"
    and "respond E (length (requests w)) parsed = Response r"
    and "statusCode r = Some c"
    and "c \<in> {301, 302, 303, 307, 308}"
    and "location r = Some l"
  shows "(l \<noteq> [] \<and> redirects < 5
            \<longrightarrow> download E w u out redirects =
                (case new_URL E l (Some parsed) of
                   None \<Rightarrow> (Inl (Uncaught TypeError), w\<lparr>requests := requests w @ [parsed]\<rparr>)
                 | Some target \<Rightarrow>
                     download E (w\<lparr>requests := requests w @ [parsed]\<rparr>) (href target) out
                       (redirects + 1)))
         \<and> (l \<noteq> [] \<and> redirects < 5 \<and> new_URL E l (Some parsed) = Some target
              \<and> new_URL E (href target) None = Some n
              \<and> respond E (Suc (length (requests w))) n \<noteq> Refused
            \<longrightarrow> take (length (requests w) + 2) (requests (snd (download E w u out redirects)))
                  = requests w @ [parsed, n])
         \<and> (l \<noteq> [] \<and> redirects < 5 \<and> new_URL E l (Some parsed) = Some target
              \<and> new_URL E (href target) None = Some n
              \<and> respond E (Suc (length (requests w))) n = Refused
            \<longrightarrow> download E w u out redirects =
                  (Inl ProtocolError, w\<lparr>requests := requests w @ [parsed]\<rparr>))
         \<and> (l = []
            \<longrightarrow> download E w u out redirects =
                  (Inl (DownloadFailed c), w\<lparr>requests := requests w @ [parsed]\<rparr>))"
proof (intro conjI impI)
  let ?w1 = "w\<lparr>requests := requests w @ [parsed]\<rparr>"
  have step: "download E w u out redirects = download E ?w1 (href target) out (redirects + 1)"
    if "l \<noteq> []" "redirects < 5" "new_URL E l (Some parsed) = Some target" for target
    using assms that
    by (intro download_redirect [where r = r])
      (simp_all add: is_redirect_def status_code_def header_value_def MAX_REDIRECTS_def)
  {
    assume a: "l \<noteq> [] \<and> redirects < 5"
    show "download E w u out redirects =
        (case new_URL E l (Some parsed) of
           None \<Rightarrow> (Inl (Uncaught TypeError), ?w1)
         | Some target \<Rightarrow> download E ?w1 (href target) out (redirects + 1))"
    proof (cases "new_URL E l (Some parsed)")
      case None
      then show ?thesis using assms a
        by (subst download.simps)
          (simp add: is_redirect_def status_code_def header_value_def MAX_REDIRECTS_def)
    next
      case (Some target)
      then show ?thesis using step [of target] a by simp
    qed
  }
  {
    assume a: "l \<noteq> [] \<and> redirects < 5 \<and> new_URL E l (Some parsed) = Some target
        \<and> new_URL E (href target) None = Some n
        \<and> respond E (Suc (length (requests w))) n \<noteq> Refused"
    then have "take (Suc (length (requests ?w1)))
          (requests (snd (download E ?w1 (href target) out (redirects + 1))))
        = requests ?w1 @ [n]"
      by (intro download_requests_first) simp_all
    then show "take (length (requests w) + 2) (requests (snd (download E w u out redirects)))
        = requests w @ [parsed, n]"
      using step [of target] a by simp
  }
  {
    assume a: "l \<noteq> [] \<and> redirects < 5 \<and> new_URL E l (Some parsed) = Some target
        \<and> new_URL E (href target) None = Some n
        \<and> respond E (Suc (length (requests w))) n = Refused"
    then have "download E ?w1 (href target) out (redirects + 1) = (Inl ProtocolError, ?w1)"
      by (intro download_refused [where p = n]) simp_all
    then show "download E w u out redirects = (Inl ProtocolError, ?w1)"
      using step [of target] a by simp
  }
  {
    assume "l = []"
    then show "download E w u out redirects = (Inl (DownloadFailed c), ?w1)"
      using download_failed [OF assms(1,2), of out redirects] assms(3-5)
      by (auto simp: is_redirect_def status_code_def)
  }
qed

theorem redirect_resolved_against_current_witness:
  "map href (requests (snd (download (scenario moved_server no_fetch) empty_world
       ''https://example.com/files/report.pdf'' ''/work/dir/report.pdf'' 0)))
     = [''https://example.com/files/report.pdf'', ''https://example.com/v2/report.pdf'']
   \<and> download (scenario (status_server 302 (Some ''http://'')) no_fetch) empty_world
       ''https://example.com/files/report.pdf'' ''/work/dir/report.pdf'' 0
     = (Inl (Uncaught TypeError),
        \<lparr>requests = [https_url ''example.com'' ''/files/report.pdf''], mkdirs = [],
         files = Map.empty\<rparr>)
   \<and> download (scenario (node_client (status_server 302 (Some ''ftp://example.com/report.pdf'')))
                 no_fetch) empty_world
       ''https://example.com/files/report.pdf'' ''/work/dir/report.pdf'' 0
     = (Inl ProtocolError,
        \<lparr>requests = [https_url ''example.com'' ''/files/report.pdf''], mkdirs = [],
         files = Map.empty\<rparr>)
   \<and> download (scenario (status_server 307 (Some [])) no_fetch) empty_world
       ''https://example.com/files/report.pdf'' ''/work/dir/report.pdf'' 0
     = (Inl (DownloadFailed 307),
        \<lparr>requests = [https_url ''example.com'' ''/files/report.pdf''], mkdirs = [],
         files = Map.empty\<rparr>)"
proof -
  let ?u = "''https://example.com/files/report.pdf''"
  let ?a = "https_url ''example.com'' ''/files/report.pdf''"
  let ?b = "https_url ''example.com'' ''/v2/report.pdf''"
  let ?out = "''/work/dir/report.pdf''"
  have "take (length (requests empty_world) + 2)
          (requests (snd (download (scenario moved_server no_fetch) empty_world ?u ?out 0)))
        = requests empty_world @ [?a, ?b]"
    using redirect_resolved_against_current [where E = "scenario moved_server no_fetch"
        and u = ?u and parsed = ?a and w = empty_world
        and r = "\<lparr>statusCode = Some 302, location = Some ''/v2/report.pdf'', body = [],
                   body_error = False\<rparr>"
        and c = 302 and l = "''/v2/report.pdf''" and redirects = 0
        and target = ?b and n = ?b and out = ?out, THEN conjunct2, THEN conjunct1]
    by (simp add: scenario_sel parse_https resolve_location moved_server_def https_url_sel
        empty_world_def)
  then have 1: "map href (requests (snd (download (scenario moved_server no_fetch) empty_world ?u ?out 0)))
      = [?u, ''https://example.com/v2/report.pdf'']"
    using download_moved [of no_fetch] by (simp add: https_url_sel empty_world_def)
  have 2: "download (scenario (status_server 302 (Some ''http://'')) no_fetch) empty_world ?u ?out 0
      = (Inl (Uncaught TypeError), \<lparr>requests = [?a], mkdirs = [], files = Map.empty\<rparr>)"
    using redirect_resolved_against_current [where E = "scenario (status_server 302 (Some ''http://'')) no_fetch"
        and u = ?u and parsed = ?a and w = empty_world
        and r = "\<lparr>statusCode = Some 302, location = Some ''http://'', body = [],
                   body_error = False\<rparr>"
        and c = 302 and l = "''http://''" and redirects = 0 and out = ?out, THEN conjunct1]
    by (simp add: scenario_sel parse_https unresolved_location status_server_def empty_world_def)
  have 3: "download (scenario (node_client (status_server 302 (Some ''ftp://example.com/report.pdf'')))
                 no_fetch) empty_world ?u ?out 0
      = (Inl ProtocolError, \<lparr>requests = [?a], mkdirs = [], files = Map.empty\<rparr>)"
    using redirect_resolved_against_current [where
          E = "scenario (node_client (status_server 302 (Some ''ftp://example.com/report.pdf''))) no_fetch"
        and u = ?u and parsed = ?a and w = empty_world
        and r = "\<lparr>statusCode = Some 302, location = Some ''ftp://example.com/report.pdf'',
                   body = [], body_error = False\<rparr>"
        and c = 302 and l = "''ftp://example.com/report.pdf''" and redirects = 0
        and target = "ftp_report" and n = "ftp_report" and out = ?out,
        THEN conjunct2, THEN conjunct2, THEN conjunct1]
    by (simp add: scenario_sel parse_https parse_ftp node_client_def status_server_def
        https_url_sel ftp_report_def empty_world_def)
  have 4: "download (scenario (status_server 307 (Some [])) no_fetch) empty_world ?u ?out 0
      = (Inl (DownloadFailed 307), \<lparr>requests = [?a], mkdirs = [], files = Map.empty\<rparr>)"
    using redirect_resolved_against_current [where E = "scenario (status_server 307 (Some [])) no_fetch"
        and u = ?u and parsed = ?a and w = empty_world
        and r = "\<lparr>statusCode = Some 307, location = Some [], body = [], body_error = False\<rparr>"
        and c = 307 and l = "[]" and redirects = 0 and out = ?out,
        THEN conjunct2, THEN conjunct2, THEN conjunct2]
    by (simp add: scenario_sel parse_https status_server_def empty_world_def)
  show ?thesis using 1 2 3 4 by simp
qed

text \<open>
  C7 as stated fails for a Location header that is present with an empty value:
  the empty string is falsy, so the response is not followed, although the empty
  reference resolves (to the URL just requested); \<^verbatim>\<open>download\<close> fails with
  \<^verbatim>\<open>DownloadFailed\<close> 302 after one request.
\<close>

theorem empty_location_counterexample:
  "respond (scenario (status_server 302 (Some [])) no_fetch) 0
       (https_url ''example.com'' ''/files/report.pdf'')
     = Response \<lparr>statusCode = Some 302, location = Some [], body = [], body_error = False\<rparr>
   \<and> new_URL (scenario (status_server 302 (Some [])) no_fetch) []
       (Some (https_url ''example.com'' ''/files/report.pdf''))
     = Some (https_url ''example.com'' ''/files/report.pdf'')
   \<and> download (scenario (status_server 302 (Some [])) no_fetch) empty_world
       ''https://example.com/files/report.pdf'' ''/work/dir/report.pdf'' 0
     = (Inl (DownloadFailed 302),
        \<lparr>requests = [https_url ''example.com'' ''/files/report.pdf''], mkdirs = [],
         files = Map.empty\<rparr>)"
proof -
  let ?E = "scenario (status_server 302 (Some [])) no_fetch"
  have e: "new_URL ?E = whatwg_URL" "respond ?E = status_server 302 (Some [])"
    by (simp_all add: scenario_def scenario_env_def)
  have "download ?E empty_world ''https://example.com/files/report.pdf'' ''/work/dir/report.pdf'' 0
      = (Inl (DownloadFailed (status_code \<lparr>statusCode = Some 302, location = Some [], body = [],
                                            body_error = False\<rparr>)),
         empty_world\<lparr>requests := requests empty_world @ [https_url ''example.com'' ''/files/report.pdf'']\<rparr>)"
    by (rule download_failed)
      (simp_all add: e parse_https status_server_def is_redirect_def status_code_def empty_world_def)
  moreover have "whatwg_URL [] (Some (https_url ''example.com'' ''/files/report.pdf''))
      = Some (https_url ''example.com'' ''/files/report.pdf'')"
    by (simp add: scenario_simps)
  ultimately show ?thesis
    by (simp add: e status_server_def status_code_def empty_world_def)
qed



text \<open>
  C1, as the code has it: for a chain of at most 5 redirects that ends in a 2xx
  response whose body arrives and can be written, the command-line \<^verbatim>\<open>download\<close>
  succeeds, having requested exactly the URLs of the chain and saved the body of
  the last; it returns nothing. The plugin's \<^verbatim>\<open>execute\<close> succeeds whenever
  \<^verbatim>\<open>fetch\<close> returns a 2xx response whose body arrives and can be written, and
  the \<^verbatim>\<open>url\<close> of its result is the URL it was asked for, as the URL class
  prints it.
\<close>

theorem download_follows_chain:
  "(redirect_chain E (length (requests w)) us \<and> length us - 1 \<le> 5
      \<and> new_URL E (last us) None = Some p
      \<and> respond E (length (requests w) + (length us - 1)) p = Response r
      \<and> 200 \<le> status_code r \<and> status_code r < 300 \<and> \<not> body_error r
      \<and> \<not> mkdir_fails E (dirname out) \<and> write_outcome E out = WriteOk
    \<longrightarrow> download E w (hd us) out 0 =
          (Inr (), w\<lparr>requests := requests w @ parsed_urls E us,
                      mkdirs := mkdirs w @ [dirname out],
                      files := (files w)(out \<mapsto> body r)\<rparr>))
   \<and> (new_URL E (arg_url args) None = Some parsedUrl
      \<and> protocol parsedUrl \<in> {''http:'', ''https:''}
      \<and> fetch E parsedUrl = Inr response \<and> ok response \<and> arrayBuffer response = Inr buf
      \<and> dest = resolveOutputPath E (arg_outputPath args) directory parsedUrl
      \<and> \<not> mkdir_fails E (dirname dest) \<and> write_outcome E dest = WriteOk
    \<longrightarrow> fst (execute E v args directory) =
          Inr \<lparr>url = href parsedUrl, outputPath = dest, bytesWritten = length buf\<rparr>)"
proof (intro conjI impI)
  assume a: "redirect_chain E (length (requests w)) us \<and> length us - 1 \<le> 5
      \<and> new_URL E (last us) None = Some p
      \<and> respond E (length (requests w) + (length us - 1)) p = Response r
      \<and> 200 \<le> status_code r \<and> status_code r < 300 \<and> \<not> body_error r
      \<and> \<not> mkdir_fails E (dirname out) \<and> write_outcome E out = WriteOk"
  then have chain: "redirect_chain E (length (requests w)) us" by simp
  let ?w = "w\<lparr>requests := requests w @ parsed_urls E (butlast us)\<rparr>"
  have len: "length (requests ?w) = length (requests w) + (length us - 1)"
    using redirect_chain_parsed [OF chain] by simp
  have "download E w (hd us) out 0 = download E ?w (last us) out (0 + (length us - 1))"
    using a by (intro download_chain) (simp_all add: MAX_REDIRECTS_def)
  also have "\<dots> = pipe_to_file E (?w\<lparr>requests := requests ?w @ [p]\<rparr>) out r"
    using a len by (intro download_success) simp_all
  also have "\<dots> = (Inr (), w\<lparr>requests := requests w @ parsed_urls E us,
                      mkdirs := mkdirs w @ [dirname out],
                      files := (files w)(out \<mapsto> body r)\<rparr>)"
    using a last_parsed [of us E p] redirect_chain_not_Nil [OF chain]
    by (simp add: pipe_to_file_success)
  finally show "download E w (hd us) out 0 =
          (Inr (), w\<lparr>requests := requests w @ parsed_urls E us,
                      mkdirs := mkdirs w @ [dirname out],
                      files := (files w)(out \<mapsto> body r)\<rparr>)" .
next
  assume "new_URL E (arg_url args) None = Some parsedUrl
      \<and> protocol parsedUrl \<in> {''http:'', ''https:''}
      \<and> fetch E parsedUrl = Inr response \<and> ok response \<and> arrayBuffer response = Inr buf
      \<and> dest = resolveOutputPath E (arg_outputPath args) directory parsedUrl
      \<and> \<not> mkdir_fails E (dirname dest) \<and> write_outcome E dest = WriteOk"
  then show "fst (execute E v args directory) =
          Inr \<lparr>url = href parsedUrl, outputPath = dest, bytesWritten = length buf\<rparr>"
    using execute_success [of E args parsedUrl response buf directory v] by auto
qed

theorem download_follows_chain_witness:
  "download (scenario moved_server moved_fetch) empty_world ''https://example.com/files/report.pdf''
     ''/work/dir/report.pdf'' 0
   = (Inr (),
      \<lparr>requests = [https_url ''example.com'' ''/files/report.pdf'',
                   https_url ''example.com'' ''/v2/report.pdf''],
       mkdirs = [''/work/dir''],
       files = [''/work/dir/report.pdf'' \<mapsto> [80, 68, 70]]\<rparr>)
   \<and> fst (execute (scenario moved_server moved_fetch) empty_world
       \<lparr>arg_url = ''https://example.com/files/report.pdf'', arg_outputPath = None\<rparr> ''/work/dir'')
     = Inr \<lparr>url = ''https://example.com/files/report.pdf'', outputPath = ''/work/dir/report.pdf'',
            bytesWritten = 3\<rparr>"
  using download_follows_chain [where E = "scenario moved_server moved_fetch" and w = empty_world
      and us = "[''https://example.com/files/report.pdf'', ''https://example.com/v2/report.pdf'']"
      and p = "https_url ''example.com'' ''/v2/report.pdf''"
      and r = "\<lparr>statusCode = Some 200, location = None, body = [80, 68, 70], body_error = False\<rparr>"
      and out = "''/work/dir/report.pdf''"
      and args = "\<lparr>arg_url = ''https://example.com/files/report.pdf'', arg_outputPath = None\<rparr>"
      and parsedUrl = "https_url ''example.com'' ''/files/report.pdf''"
      and response = "\<lparr>url_list = [''https://example.com/files/report.pdf'',
                                       ''https://example.com/v2/report.pdf''],
                         status = 200, arrayBuffer = Inr [80, 68, 70]\<rparr>"
      and buf = "[80, 68, 70]" and dest = "''/work/dir/report.pdf''"
      and directory = "''/work/dir''" and v = empty_world]
    moved_chain [of moved_fetch]
    resolveOutputPath_report_pdf [of "''https://example.com/files/report.pdf''" "''https:''"
      "''example.com''" "[]" "[]"]
  by (simp add: scenario_sel parse_https moved_fetch_def moved_server_def
      https_url_sel status_code_def ok_def empty_world_def dirname_def)
    (simp add: https_url_def)


text \<open>
  C1 as stated fails in the plugin: after one redirect, from
  \<^verbatim>\<open>/files/report.pdf\<close> to \<^verbatim>\<open>/v2/report.pdf\<close>, the result's \<^verbatim>\<open>url\<close> is the
  URL requested, not the last URL of the chain.
\<close>

theorem result_url_counterexample:
  "fetch (scenario moved_server moved_fetch) (https_url ''example.com'' ''/files/report.pdf'')
     = Inr \<lparr>url_list = [''https://example.com/files/report.pdf'',
                         ''https://example.com/v2/report.pdf''],
            status = 200, arrayBuffer = Inr [80, 68, 70]\<rparr>
   \<and> fst (execute (scenario moved_server moved_fetch) empty_world
       \<lparr>arg_url = ''https://example.com/files/report.pdf'', arg_outputPath = None\<rparr> ''/work/dir'')
     = Inr \<lparr>url = ''https://example.com/files/report.pdf'', outputPath = ''/work/dir/report.pdf'',
            bytesWritten = 3\<rparr>
   \<and> url \<lparr>url = ''https://example.com/files/report.pdf'', outputPath = ''/work/dir/report.pdf'',
          bytesWritten = 3\<rparr>
     \<noteq> last [''https://example.com/files/report.pdf'', ''https://example.com/v2/report.pdf'']"
  by (simp add: execute_moved scenario_sel moved_fetch_def https_url_sel)


end
